theory Spec2Isabelle
  imports Complex_Main
begin

section \<open>Data model\<close>

text \<open>
  A pandas cell. \<open>Null\<close> stands for every missing marker (None, NaN, NaT), which is what
  \<open>isnull\<close>, \<open>dropna\<close> and \<open>fillna\<close> look at. A number is binary
  floating point in the source; \<open>Num a\<close> holds the real number \<open>a\<close> that the float
  denotes, and comparisons of floats are comparisons of these reals. A \<open>Timestamp\<close> counts seconds, a \<open>Day\<close> counts calendar days
  (the value of \<open>.dt.date\<close>).
\<close>

datatype cell = Null | Str string | Num real | Timestamp int | Day int

record row =
  idx :: nat
  cells :: "string \<rightharpoonup> cell"

record dataframe =
  columns :: "string list"
  rows :: "row list"

datatype TransactionType = TRANSFER | DEPOSIT | WITHDRAWAL | PAYMENT

datatype DataQualityLevel = EXCELLENT | GOOD | ACCEPTABLE | POOR

record DataQualityReport =
  total_records :: nat
  valid_records :: nat
  null_records :: nat
  invalid_amounts :: nat
  duplicate_records :: nat
  quality_score :: real
  quality_level :: DataQualityLevel
  anomaly_count :: nat
  processing_timestamp :: int

record config =
  max_transaction_amount :: real
  min_transaction_amount :: real
  required_columns :: "string list"
  anomaly_threshold_std :: real
  date_format :: string
  currency_precision :: int
  remove_duplicates :: bool
  handle_outliers :: bool

text \<open>The processor object: its configuration and the report attribute it caches.\<close>

record processor =
  config :: config
  quality_report :: "DataQualityReport option"

text \<open>
  What the run takes from outside the module: how pandas parses a string as a number or
  as a date and reads a number as a date, how \<open>astype(str)\<close> prints a cell that is not a
  string, the reading of the clock at each call of \<open>datetime.now()\<close> (named by its
  source line), and the floating-point arithmetic. Every operation of the source that
  rounds its result is a field here: subtraction, multiplication and division of floats,
  the built-in \<open>round\<close> on a float, the \<open>round\<close> of numpy behind \<open>Series.round\<close> and
  \<open>DataFrame.round\<close>, and the reductions \<open>sum\<close>, \<open>mean\<close>, \<open>std\<close> and \<open>median\<close> of the
  values of a series that are not missing. The theorems hold for every such arithmetic;
  none of them relies on how a float operation rounds. Infinities and the NaN of an
  overflow are left out.
\<close>

record env =
  parse_numeric :: "string \<Rightarrow> real option"
  parse_datetime :: "string \<Rightarrow> int option"
  datetime_of_num :: "real \<Rightarrow> int option"
  str_of :: "cell \<Rightarrow> string"
  float_sub :: "real \<Rightarrow> real \<Rightarrow> real"
  float_mul :: "real \<Rightarrow> real \<Rightarrow> real"
  float_div :: "real \<Rightarrow> real \<Rightarrow> real"
  float_round :: "real \<Rightarrow> int \<Rightarrow> real"
  np_round :: "real \<Rightarrow> int \<Rightarrow> real"
  np_sum :: "real list \<Rightarrow> real"
  np_mean :: "real list \<Rightarrow> real"
  np_std :: "real list \<Rightarrow> real"
  np_median :: "real list \<Rightarrow> real"
  now_159 :: int
  now_162 :: int
  now_238 :: int
  now_287 :: int
  now_342 :: int

datatype error =
    Schema_validation_failed "string list"
  | KeyError string
  | TypeError
  | ParserError
  | Unpack_error
  | Length_mismatch nat nat

definition get_default_config :: config where
  "get_default_config =
     \<lparr>max_transaction_amount = 1000000, min_transaction_amount = 1 / 100,
      required_columns = [''transaction_id'', ''bank_id'', ''customer_id'', ''amount'',
                          ''transaction_date''],
      anomaly_threshold_std = 3, date_format = ''%Y-%m-%d'', currency_precision = 2,
      remove_duplicates = True, handle_outliers = True\<rparr>"

definition new_processor :: "config \<Rightarrow> processor" where
  "new_processor c = \<lparr>config = c, quality_report = None\<rparr>"

section \<open>Frame primitives\<close>

definition cell_at :: "row \<Rightarrow> string \<Rightarrow> cell" where
  "cell_at r c = (case cells r c of Some v \<Rightarrow> v | None \<Rightarrow> Null)"

definition empty_frame :: dataframe where
  "empty_frame = \<lparr>columns = [], rows = []\<rparr>"

definition df_empty :: "dataframe \<Rightarrow> bool" where
  \<comment> \<open>\<open>DataFrame.empty\<close>: one of the two axes has length 0\<close>
  "df_empty df = (rows df = [] \<or> columns df = [])"

definition set_column :: "string \<Rightarrow> (row \<Rightarrow> cell) \<Rightarrow> dataframe \<Rightarrow> dataframe" where
  \<comment> \<open>\<open>df[c] = ...\<close>: overwrites the column, or appends it as the last one\<close>
  "set_column c f df =
     \<lparr>columns = (if c \<in> set (columns df) then columns df else columns df @ [c]),
      rows = map (\<lambda>r. r\<lparr>cells := (cells r)(c \<mapsto> f r)\<rparr>) (rows df)\<rparr>"

definition select_rows :: "(row \<Rightarrow> bool) \<Rightarrow> dataframe \<Rightarrow> dataframe" where
  \<comment> \<open>\<open>df[mask]\<close> with the mask computed row by row\<close>
  "select_rows P df = df\<lparr>rows := filter P (rows df)\<rparr>"

definition mask_rows :: "bool list \<Rightarrow> row list \<Rightarrow> row list" where
  "mask_rows flags rs = map fst (filter snd (zip rs flags))"

definition drop_column :: "string \<Rightarrow> dataframe \<Rightarrow> dataframe" where
  "drop_column c df =
     \<lparr>columns = filter (\<lambda>x. x \<noteq> c) (columns df),
      rows = map (\<lambda>r. r\<lparr>cells := (cells r) |` (- {c})\<rparr>) (rows df)\<rparr>"

definition dropna :: "string list \<Rightarrow> dataframe \<Rightarrow> dataframe" where
  "dropna cols df = select_rows (\<lambda>r. \<forall>c \<in> set cols. cell_at r c \<noteq> Null) df"

definition count_rows :: "(row \<Rightarrow> bool) \<Rightarrow> dataframe \<Rightarrow> nat" where
  "count_rows P df = length (filter P (rows df))"

definition to_numeric :: "env \<Rightarrow> cell \<Rightarrow> real option" where
  \<comment> \<open>\<open>pd.to_numeric(..., errors='coerce')\<close> on one cell; \<open>None\<close> is NaN\<close>
  "to_numeric e c = (case c of Num a \<Rightarrow> Some a | Str s \<Rightarrow> parse_numeric e s | _ \<Rightarrow> None)"

definition num_cell :: "real option \<Rightarrow> cell" where
  "num_cell x = (case x of Some a \<Rightarrow> Num a | None \<Rightarrow> Null)"

definition to_datetime :: "env \<Rightarrow> cell \<Rightarrow> int option" where
  \<comment> \<open>\<open>pd.to_datetime\<close> on one cell; \<open>None\<close> is a value that does not parse\<close>
  "to_datetime e c =
     (case c of Timestamp t \<Rightarrow> Some t | Day d \<Rightarrow> Some (d * 86400)
      | Str s \<Rightarrow> parse_datetime e s | Num a \<Rightarrow> datetime_of_num e a | Null \<Rightarrow> None)"

definition time_cell :: "int option \<Rightarrow> cell" where
  "time_cell x = (case x of Some t \<Rightarrow> Timestamp t | None \<Rightarrow> Null)"

definition num_gt :: "cell \<Rightarrow> real \<Rightarrow> bool" where
  "num_gt c x = (case c of Num a \<Rightarrow> a > x | _ \<Rightarrow> False)"

definition num_le :: "cell \<Rightarrow> real \<Rightarrow> bool" where
  "num_le c x = (case c of Num a \<Rightarrow> a \<le> x | _ \<Rightarrow> False)"

definition time_gt :: "cell \<Rightarrow> int \<Rightarrow> bool" where
  "time_gt c x = (case c of Timestamp t \<Rightarrow> t > x | _ \<Rightarrow> False)"

definition time_le :: "cell \<Rightarrow> int \<Rightarrow> bool" where
  "time_le c x = (case c of Timestamp t \<Rightarrow> t \<le> x | _ \<Rightarrow> False)"

definition round_half_even :: "real \<Rightarrow> int" where
  "round_half_even x =
     (let f = \<lfloor>x\<rfloor>; d = x - of_int f
      in if d < 1 / 2 then f else if d > 1 / 2 then f + 1
         else if even f then f else f + 1)"

definition decimal_round :: "real \<Rightarrow> int \<Rightarrow> real" where
  \<comment> \<open>rounding to \<open>p\<close> decimals, ties to even, in exact arithmetic\<close>
  "decimal_round x p =
     (if 0 \<le> p then of_int (round_half_even (x * 10 ^ nat p)) / 10 ^ nat p
      else of_int (round_half_even (x / 10 ^ nat (- p))) * 10 ^ nat (- p))"

text \<open>
  A Python number is an \<open>int\<close> or a \<open>float\<close>. The built-in \<open>round(x, p)\<close> is exact on an
  \<open>int\<close> and a float operation on a \<open>float\<close>.
\<close>

datatype number = PyInt int | PyFloat real

definition number_value :: "number \<Rightarrow> real" where
  "number_value x = (case x of PyInt n \<Rightarrow> of_int n | PyFloat a \<Rightarrow> a)"

definition py_round :: "env \<Rightarrow> number \<Rightarrow> int \<Rightarrow> number" where
  "py_round e x p =
     (case x of
        PyInt n \<Rightarrow>
          if 0 \<le> p then PyInt n
          else PyInt (round_half_even (of_int n / 10 ^ nat (- p)) * 10 ^ nat (- p))
      | PyFloat a \<Rightarrow> PyFloat (float_round e a p))"

definition is_space :: "char \<Rightarrow> bool" where
  \<comment> \<open>the characters below 256 that \<open>str.isspace\<close> accepts; a \<open>char\<close> is a code point
      below 256\<close>
  "is_space ch =
     (ch \<in> set [CHR 0x09, CHR 0x0A, CHR 0x0B, CHR 0x0C, CHR 0x0D, CHR 0x1C, CHR 0x1D, CHR 0x1E,
                CHR 0x1F, CHR 0x20, CHR 0x85, CHR 0xA0])"

definition strip :: "string \<Rightarrow> string" where
  "strip s = rev (dropWhile is_space (rev (dropWhile is_space s)))"

definition astype_str :: "env \<Rightarrow> cell \<Rightarrow> string" where
  "astype_str e c = (case c of Str s \<Rightarrow> s | _ \<Rightarrow> str_of e c)"

definition hex_digit :: "nat \<Rightarrow> char" where
  "hex_digit n = (if n < 16 then ''0123456789abcdef'' ! n else CHR ''?'')"

definition py_repr_char :: "char \<Rightarrow> char \<Rightarrow> string" where
  \<comment> \<open>one character inside \<open>repr\<close> of a string delimited by \<open>quote\<close>\<close>
  "py_repr_char quote ch =
     (let n = (of_char ch :: nat)
      in if ch = quote \<or> ch = CHR 0x5C then [CHR 0x5C, ch]
         else if ch = CHR 0x09 then [CHR 0x5C, CHR ''t'']
         else if ch = CHR 0x0A then [CHR 0x5C, CHR ''n'']
         else if ch = CHR 0x0D then [CHR 0x5C, CHR ''r'']
         else if n < 32 \<or> n = 127 \<or> (128 \<le> n \<and> n \<le> 160) \<or> n = 173
         then [CHR 0x5C, CHR ''x'', hex_digit (n div 16), hex_digit (n mod 16)]
         else [ch])"

definition py_repr_str :: "string \<Rightarrow> string" where
  \<comment> \<open>\<open>repr\<close> of a string: apostrophes around it, or double quotes when it holds an
      apostrophe and no double quote\<close>
  "py_repr_str s =
     (let quote = (if CHR 0x27 \<in> set s \<and> CHR 0x22 \<notin> set s then CHR 0x22 else CHR 0x27)
      in [quote] @ concat (map (py_repr_char quote) s) @ [quote])"

definition py_repr_list :: "string list \<Rightarrow> string" where
  \<comment> \<open>how an f-string prints a list of strings\<close>
  "py_repr_list xs =
     ''['' @ concat (map (\<lambda>(i, s). (if i = 0 then [] else '', '') @ py_repr_str s)
                          (zip [0..<length xs] xs)) @ '']''"

section \<open>Schema validation\<close>

definition validate_schema :: "config \<Rightarrow> dataframe \<Rightarrow> bool \<times> string list" where
  "validate_schema cfg df =
     (let required_cols = required_columns cfg;
          missing_cols = filter (\<lambda>col. col \<notin> set (columns df)) required_cols;
          errors = (if missing_cols \<noteq> []
                    then [''Missing required columns: '' @ py_repr_list missing_cols] else [])
                   @ (if df_empty df then [''Dataframe is empty''] else [])
      in (length errors = 0, errors))"

section \<open>Null cleaning\<close>

definition critical_fields :: "string list" where
  "critical_fields = [''bank_id'', ''customer_id'', ''amount'']"

definition fillna_column :: "string \<Rightarrow> cell \<Rightarrow> dataframe \<Rightarrow> dataframe" where
  "fillna_column c v df = set_column c (\<lambda>r. if cell_at r c = Null then v else cell_at r c) df"

definition clean_null_values :: "dataframe \<Rightarrow> error + dataframe" where
  \<comment> \<open>\<open>df[field]\<close> in the logging loop raises KeyError at the first critical field that is
      not a column\<close>
  "clean_null_values df =
     (case find (\<lambda>field. field \<notin> set (columns df)) critical_fields of
        Some field \<Rightarrow> Inl (KeyError field)
      | None \<Rightarrow>
          (let df_clean = dropna critical_fields df;
               df_clean = (if ''transaction_type'' \<in> set (columns df)
                           then fillna_column ''transaction_type'' (Str ''UNKNOWN'') df_clean
                           else df_clean);
               df_clean = (if ''description'' \<in> set (columns df)
                           then fillna_column ''description'' (Str ''No description'') df_clean
                           else df_clean)
           in Inr df_clean))"

section \<open>Type and range normalisation\<close>

definition convert_amount :: "env \<Rightarrow> dataframe \<Rightarrow> dataframe" where
  \<comment> \<open>lines 124 to 130\<close>
  "convert_amount e df =
     (let df_typed = set_column ''amount'' (\<lambda>r. num_cell (to_numeric e (cell_at r ''amount''))) df;
          invalid_amounts = count_rows (\<lambda>r. cell_at r ''amount'' = Null) df_typed
      in if invalid_amounts > 0 then dropna [''amount''] df_typed else df_typed)"

definition validate_amount_range :: "config \<Rightarrow> dataframe \<Rightarrow> dataframe" where
  \<comment> \<open>lines 133 to 144; \<open>min_amount\<close> is read and not used\<close>
  "validate_amount_range cfg df_typed =
     (let min_amount = min_transaction_amount cfg;
          max_amount = max_transaction_amount cfg;
          invalid_range = count_rows (\<lambda>r. num_le (cell_at r ''amount'') 0
                                          \<or> num_gt (cell_at r ''amount'') max_amount) df_typed
      in if invalid_range > 0
         then select_rows (\<lambda>r. num_gt (cell_at r ''amount'') 0
                                \<and> num_le (cell_at r ''amount'') max_amount) df_typed
         else df_typed)"

definition round_amount :: "config \<Rightarrow> env \<Rightarrow> dataframe \<Rightarrow> dataframe" where
  \<comment> \<open>lines 147 and 148\<close>
  "round_amount cfg e df_typed =
     (let precision = currency_precision cfg
      in set_column ''amount''
           (\<lambda>r. case cell_at r ''amount'' of Num a \<Rightarrow> Num (np_round e a precision) | c \<Rightarrow> c)
           df_typed)"

definition validate_dates :: "env \<Rightarrow> dataframe \<Rightarrow> dataframe" where
  \<comment> \<open>lines 151 to 162: the rows are filtered only when some date is in the future\<close>
  "validate_dates e df_typed =
     (if ''transaction_date'' \<in> set (columns df_typed) then
        (let df_typed = set_column ''transaction_date''
                          (\<lambda>r. time_cell (to_datetime e (cell_at r ''transaction_date''))) df_typed;
             future_dates = count_rows (\<lambda>r. time_gt (cell_at r ''transaction_date'') (now_159 e))
                              df_typed
         in if future_dates > 0
            then select_rows (\<lambda>r. time_le (cell_at r ''transaction_date'') (now_162 e)) df_typed
            else df_typed)
      else df_typed)"

definition string_fields :: "string list" where
  "string_fields = [''bank_id'', ''customer_id'', ''transaction_id'']"

definition validate_string_field :: "env \<Rightarrow> dataframe \<Rightarrow> string \<Rightarrow> dataframe" where
  "validate_string_field e df_typed field =
     (if field \<in> set (columns df_typed) then
        select_rows (\<lambda>r. cell_at r field \<noteq> Str '''')
          (set_column field (\<lambda>r. Str (strip (astype_str e (cell_at r field)))) df_typed)
      else df_typed)"

definition valid_types :: "string list" where
  "valid_types = [''TRANSFER'', ''DEPOSIT'', ''WITHDRAWAL'', ''PAYMENT'']"

definition validate_transaction_type :: "dataframe \<Rightarrow> dataframe" where
  \<comment> \<open>lines 173 to 178\<close>
  "validate_transaction_type df_typed =
     (if ''transaction_type'' \<in> set (columns df_typed) then
        set_column ''transaction_type''
          (\<lambda>r. if cell_at r ''transaction_type'' \<in> Str ` set (valid_types @ [''UNKNOWN''])
                then cell_at r ''transaction_type'' else Str ''UNKNOWN'') df_typed
      else df_typed)"

definition validate_column_types :: "config \<Rightarrow> env \<Rightarrow> dataframe \<Rightarrow> error + dataframe" where
  "validate_column_types cfg e df =
     (if ''amount'' \<notin> set (columns df) then Inl (KeyError ''amount'')
      else
        (let df_typed = convert_amount e df;
             df_typed = validate_amount_range cfg df_typed;
             df_typed = round_amount cfg e df_typed;
             df_typed = validate_dates e df_typed;
             df_typed = foldl (validate_string_field e) df_typed string_fields;
             df_typed = validate_transaction_type df_typed
         in Inr df_typed))"

section \<open>Duplicates\<close>

definition duplicate_columns :: "string list" where
  "duplicate_columns = [''bank_id'', ''customer_id'', ''amount'', ''transaction_date'']"

fun seen_before :: "'a list \<Rightarrow> 'a list \<Rightarrow> bool list" where
  "seen_before seen [] = []"
| "seen_before seen (k # ks) = (k \<in> set seen) # seen_before (k # seen) ks"

definition identity_key :: "string list \<Rightarrow> row \<Rightarrow> cell list" where
  "identity_key cols r = map (cell_at r) cols"

definition duplicated :: "string list \<Rightarrow> dataframe \<Rightarrow> error + bool list" where
  \<comment> \<open>\<open>DataFrame.duplicated(subset, keep='first')\<close>. An empty frame gives an empty mask;
      otherwise pandas unpacks one factorisation per key column and fails with a
      ValueError when there is none\<close>
  "duplicated cols df =
     (if df_empty df then Inr []
      else if cols = [] then Inl Unpack_error
      else Inr (seen_before [] (map (identity_key cols) (rows df))))"

definition detect_duplicates :: "config \<Rightarrow> dataframe \<Rightarrow> error + dataframe" where
  "detect_duplicates cfg df =
     (if \<not> remove_duplicates cfg then Inr df
      else
        (let available_columns = filter (\<lambda>col. col \<in> set (columns df)) duplicate_columns
         in case duplicated available_columns df of
              Inl err \<Rightarrow> Inl err
            | Inr duplicates \<Rightarrow>
                (let duplicate_count = length (filter id duplicates)
                 in if duplicate_count > 0
                    then Inr (df\<lparr>rows := mask_rows (map Not duplicates) (rows df)\<rparr>)
                    else Inr df)))"

section \<open>Anomalies\<close>

fun num_values :: "cell list \<Rightarrow> real list" where
  "num_values [] = []"
| "num_values (Num a # cs) = a # num_values cs"
| "num_values (c # cs) = num_values cs"

definition mean :: "env \<Rightarrow> real list \<Rightarrow> real option" where
  \<comment> \<open>\<open>Series.mean()\<close> of the values that are not null; \<open>None\<close> is NaN, the mean of no
      value\<close>
  "mean e xs = (if xs = [] then None else Some (np_mean e xs))"

definition std :: "env \<Rightarrow> real list \<Rightarrow> real option" where
  \<comment> \<open>\<open>Series.std()\<close>: the sample standard deviation (ddof = 1), NaN below two values\<close>
  "std e xs = (if length xs < 2 then None else Some (np_std e xs))"

definition exact_mean :: "real list \<Rightarrow> real" where
  "exact_mean xs = sum_list xs / real (length xs)"

definition exact_std :: "real list \<Rightarrow> real" where
  \<comment> \<open>the sample standard deviation in exact arithmetic\<close>
  "exact_std xs =
     sqrt (sum_list (map (\<lambda>x. (x - exact_mean xs) ^ 2) xs) / real (length xs - 1))"

definition is_numeric :: "cell \<Rightarrow> bool" where
  "is_numeric c = (case c of Num a \<Rightarrow> True | Null \<Rightarrow> True | _ \<Rightarrow> False)"

definition group_amounts :: "dataframe \<Rightarrow> cell \<Rightarrow> cell list" where
  "group_amounts df k =
     map (\<lambda>r. cell_at r ''amount'') (filter (\<lambda>r. cell_at r ''bank_id'' = k) (rows df))"

definition amount_zscore :: "env \<Rightarrow> dataframe \<Rightarrow> row \<Rightarrow> cell" where
  \<comment> \<open>the \<open>transform\<close> of lines 221 to 223: a row whose \<open>bank_id\<close> is null is in no group
      and gets NaN; the scalar 0 of the \<open>else\<close> branch is given to every row of the group\<close>
  "amount_zscore e df r =
     (let k = cell_at r ''bank_id''
      in if k = Null then Null
         else
           (let x = num_values (group_amounts df k)
            in case std e x of
                 None \<Rightarrow> Num 0
               | Some s \<Rightarrow>
                   if s > 0
                   then (case (cell_at r ''amount'', mean e x) of
                           (Num a, Some m) \<Rightarrow> Num (\<bar>float_div e (float_sub e a m) s\<bar>)
                         | _ \<Rightarrow> Null)
                   else Num 0))"

definition detect_anomalies ::
  "config \<Rightarrow> env \<Rightarrow> dataframe \<Rightarrow> dataframe \<times> (error + dataframe \<times> dataframe)" where
  \<comment> \<open>the first component is the argument \<open>df\<close> as the call leaves it\<close>
  "detect_anomalies cfg e df =
     (if \<not> handle_outliers cfg then (df, Inr (df, empty_frame))
      else if ''bank_id'' \<notin> set (columns df) then (df, Inl (KeyError ''bank_id''))
      else if ''amount'' \<notin> set (columns df) then (df, Inl (KeyError ''amount''))
      else if \<exists>r \<in> set (rows df). \<not> is_numeric (cell_at r ''amount'') then (df, Inl TypeError)
      else
        (let threshold = anomaly_threshold_std cfg;
             df = set_column ''amount_zscore'' (amount_zscore e df) df;
             anomalies = select_rows (\<lambda>r. num_gt (cell_at r ''amount_zscore'') threshold) df;
             normal_data = select_rows (\<lambda>r. num_le (cell_at r ''amount_zscore'') threshold) df;
             normal_data = (if ''amount_zscore'' \<in> set (columns normal_data)
                            then drop_column ''amount_zscore'' normal_data else normal_data);
             anomaly_count = length (rows anomalies);
             anomalies = (if anomaly_count > 0
                          then set_column ''detected_at'' (\<lambda>r. Timestamp (now_238 e))
                                 (set_column ''anomaly_type'' (\<lambda>r. Str ''statistical_outlier'')
                                    anomalies)
                          else anomalies)
         in (df, Inr (normal_data, anomalies))))"

section \<open>Quality report\<close>

definition quality_level_of :: "real \<Rightarrow> DataQualityLevel" where
  \<comment> \<open>lines 269 to 276\<close>
  "quality_level_of score =
     (if score \<ge> 95 then EXCELLENT
      else if score \<ge> 85 then GOOD
      else if score \<ge> 75 then ACCEPTABLE
      else POOR)"

definition generate_quality_report ::
  "processor \<Rightarrow> env \<Rightarrow> dataframe \<Rightarrow> dataframe \<Rightarrow> dataframe
     \<Rightarrow> processor \<times> (error + DataQualityReport)" where
  "generate_quality_report p e original_df cleaned_df anomalies_df =
     (let total_records = length (rows original_df);
          valid_records = length (rows cleaned_df);
          null_records =
            sum_list (map (\<lambda>col. if col \<in> set (columns original_df)
                                   then count_rows (\<lambda>r. cell_at r col = Null) original_df else 0)
                          (required_columns (config p)));
          invalid_amounts =
            (if ''amount'' \<in> set (columns original_df)
             then count_rows (\<lambda>r. to_numeric e (cell_at r ''amount'') = None) original_df
             else 0);
          available_dup_cols = filter (\<lambda>col. col \<in> set (columns original_df)) duplicate_columns
      in case duplicated available_dup_cols original_df of
           Inl err \<Rightarrow> (p, Inl err)
         | Inr duplicates \<Rightarrow>
             (let duplicate_records = length (filter id duplicates);
                  quality_score = (if total_records > 0
                                   then PyFloat (float_mul e
                                          (float_div e (real valid_records) (real total_records))
                                          100)
                                   else PyInt 0);
                  quality_level = quality_level_of (number_value quality_score);
                  report = \<lparr>total_records = total_records, valid_records = valid_records,
                            null_records = null_records, invalid_amounts = invalid_amounts,
                            duplicate_records = duplicate_records,
                            quality_score = number_value (py_round e quality_score 2),
                            quality_level = quality_level,
                            anomaly_count = length (rows anomalies_df),
                            processing_timestamp = now_287 e\<rparr>
              in (p\<lparr>quality_report := Some report\<rparr>, Inr report)))"

section \<open>Aggregation\<close>

record AggregateRecord =
  total_volume :: real
  transaction_count :: nat
  avg_transaction_value :: real
  std_transaction_value :: real
  median_transaction_value :: real
  min_transaction_value :: real
  max_transaction_value :: real
  unique_customers :: nat
  unique_transaction_ids :: nat
  avg_transactions_per_customer :: real
  avg_value_per_customer :: real
  processed_at :: int
  data_quality_score :: real

type_synonym aggregates = "cell \<times> cell \<rightharpoonup> AggregateRecord"

definition nan_to_zero :: "real option \<Rightarrow> real" where
  \<comment> \<open>\<open>fillna(0)\<close> on a number that may be NaN\<close>
  "nan_to_zero x = (case x of Some a \<Rightarrow> a | None \<Rightarrow> 0)"

definition median :: "env \<Rightarrow> real list \<Rightarrow> real option" where
  \<comment> \<open>\<open>median\<close> of the values that are not null; NaN when there is none\<close>
  "median e xs = (if xs = [] then None else Some (np_median e xs))"

definition exact_median :: "real list \<Rightarrow> real" where
  "exact_median xs =
     (let s = sort xs; n = length s
      in if odd n then s ! (n div 2) else (s ! (n div 2 - 1) + s ! (n div 2)) / 2)"

definition total_of :: "env \<Rightarrow> real list \<Rightarrow> real" where
  \<comment> \<open>\<open>sum\<close> of the values that are not null; 0 when there is none\<close>
  "total_of e xs = (if xs = [] then 0 else np_sum e xs)"

definition minimum :: "real list \<Rightarrow> real option" where
  "minimum xs = (case xs of [] \<Rightarrow> None | y # ys \<Rightarrow> Some (fold min ys y))"

definition maximum :: "real list \<Rightarrow> real option" where
  "maximum xs = (case xs of [] \<Rightarrow> None | y # ys \<Rightarrow> Some (fold max ys y))"

definition nunique :: "cell list \<Rightarrow> nat" where
  "nunique cs = length (remdups (filter (\<lambda>c. c \<noteq> Null) cs))"

definition ratio_or_zero :: "env \<Rightarrow> real \<Rightarrow> nat \<Rightarrow> real" where
  \<comment> \<open>a quotient by a count, rounded (lines 333 to 339); the infinity or NaN of a zero
      count ends as 0 (lines 346, 347)\<close>
  "ratio_or_zero e a n = (if n = 0 then 0 else np_round e (float_div e a (real n)) 2)"

definition summarise :: "processor \<Rightarrow> env \<Rightarrow> row list \<Rightarrow> AggregateRecord" where
  "summarise p e g =
     (let x = num_values (map (\<lambda>r. cell_at r ''amount'') g);
          total = total_of e x;
          customers = nunique (map (\<lambda>r. cell_at r ''customer_id'') g)
      in \<lparr>total_volume = np_round e total 2,
          transaction_count = length x,
          avg_transaction_value = np_round e (nan_to_zero (mean e x)) 2,
          std_transaction_value = np_round e (nan_to_zero (std e x)) 2,
          median_transaction_value = np_round e (nan_to_zero (median e x)) 2,
          min_transaction_value = np_round e (nan_to_zero (minimum x)) 2,
          max_transaction_value = np_round e (nan_to_zero (maximum x)) 2,
          unique_customers = customers,
          unique_transaction_ids = nunique (map (\<lambda>r. cell_at r ''transaction_id'') g),
          avg_transactions_per_customer =
            np_round e (ratio_or_zero e (real (length x)) customers) 2,
          avg_value_per_customer = np_round e (ratio_or_zero e total customers) 2,
          processed_at = now_342 e,
          data_quality_score =
            np_round e (case quality_report p of Some rep \<Rightarrow> quality_score rep | None \<Rightarrow> 100)
              2\<rparr>)"

definition to_date :: "env \<Rightarrow> cell \<Rightarrow> cell option" where
  \<comment> \<open>\<open>pd.to_datetime(...).dt.date\<close> on one cell; \<open>None\<close> is a value that does not parse,
      on which \<open>to_datetime\<close> raises here (no \<open>errors='coerce'\<close>)\<close>
  "to_date e c =
     (if c = Null then Some Null
      else case to_datetime e c of Some t \<Rightarrow> Some (Day (t div 86400)) | None \<Rightarrow> None)"

definition aggregate_daily_transactions ::
  "processor \<Rightarrow> env \<Rightarrow> dataframe \<Rightarrow> dataframe \<times> (error + aggregates)" where
  \<comment> \<open>The first component is the argument \<open>df\<close> as the call leaves it. With a
      \<open>transaction_type\<close> column the aggregation has ten columns and line 318 gives it
      nine names, which raises. The result maps each group key to its row; the order of
      the rows is left out.\<close>
  "aggregate_daily_transactions p e df =
     (if ''transaction_date'' \<in> set (columns df)
         \<and> (\<exists>r \<in> set (rows df). to_date e (cell_at r ''transaction_date'') = None)
      then (df, Inl ParserError)
      else
        (let df = (if ''transaction_date'' \<in> set (columns df)
                   then set_column ''transaction_date''
                          (\<lambda>r. case to_date e (cell_at r ''transaction_date'') of
                                  Some d \<Rightarrow> d | None \<Rightarrow> Null) df
                   else df)
         in case find (\<lambda>c. c \<notin> set (columns df))
                   [''bank_id'', ''transaction_date'', ''amount'', ''customer_id'',
                    ''transaction_id''] of
              Some c \<Rightarrow> (df, Inl (KeyError c))
            | None \<Rightarrow>
                if \<exists>r \<in> set (rows df). \<not> is_numeric (cell_at r ''amount'')
                then (df, Inl TypeError)
                else if ''transaction_type'' \<in> set (columns df)
                then (df, Inl (Length_mismatch 10 9))
                else
                  (df, Inr (\<lambda>(b, d).
                     if b = Null \<or> d = Null then None
                     else
                       (let g = filter (\<lambda>r. cell_at r ''bank_id'' = b
                                           \<and> cell_at r ''transaction_date'' = d) (rows df)
                        in if g = [] then None else Some (summarise p e g))))))"

section \<open>The pipeline\<close>

definition cleaning_stages ::
  "config \<Rightarrow> env \<Rightarrow> dataframe \<Rightarrow> error + dataframe \<times> dataframe" where
  \<comment> \<open>steps 1 to 5 of \<open>process_banking_data\<close>: the final normal set and the anomalies\<close>
  "cleaning_stages cfg e df =
     (case validate_schema cfg df of
        (is_valid, errors) \<Rightarrow>
          if \<not> is_valid then Inl (Schema_validation_failed errors)
          else
            (case clean_null_values df of
               Inl err \<Rightarrow> Inl err
             | Inr df_clean \<Rightarrow>
                 (case validate_column_types cfg e df_clean of
                    Inl err \<Rightarrow> Inl err
                  | Inr df_typed \<Rightarrow>
                      (case detect_duplicates cfg df_typed of
                         Inl err \<Rightarrow> Inl err
                       | Inr df_deduped \<Rightarrow> snd (detect_anomalies cfg e df_deduped)))))"


section \<open>Sample inputs\<close>

text \<open>
  The sample environment computes in exact arithmetic. Wherever a sample run below
  reaches one of these operations, its operands are numbers on which binary floating
  point is exact as well (small integers and fractions with a power of two as
  denominator, whose results are again of this kind), so there this environment and the
  machine give the same values.
\<close>

definition sample_env :: env where
  "sample_env =
     \<lparr>parse_numeric = (\<lambda>s. None), parse_datetime = (\<lambda>s. None),
      datetime_of_num = (\<lambda>a. None), str_of = (\<lambda>c. ''nan''),
      float_sub = (\<lambda>a b. a - b), float_mul = (\<lambda>a b. a * b), float_div = (\<lambda>a b. a / b),
      float_round = decimal_round, np_round = decimal_round,
      np_sum = sum_list, np_mean = exact_mean, np_std = exact_std, np_median = exact_median,
      now_159 = 1000, now_162 = 1000, now_238 = 1000, now_287 = 1000, now_342 = 1000\<rparr>"

definition transaction :: "nat \<Rightarrow> string \<Rightarrow> string \<Rightarrow> cell \<Rightarrow> cell \<Rightarrow> row" where
  "transaction i bank customer amount date =
     \<lparr>idx = i,
      cells = [''transaction_id'' \<mapsto> Str ''T1'', ''bank_id'' \<mapsto> Str bank,
               ''customer_id'' \<mapsto> Str customer, ''amount'' \<mapsto> amount,
               ''transaction_date'' \<mapsto> date]\<rparr>"

definition sample_batch :: "row list \<Rightarrow> dataframe" where
  "sample_batch rs =
     \<lparr>columns = [''transaction_id'', ''bank_id'', ''customer_id'', ''amount'',
                 ''transaction_date''],
      rows = rs\<rparr>"



definition half_sigma_config :: config where
  "half_sigma_config = get_default_config\<lparr>anomaly_threshold_std := 1 / 2\<rparr>"

definition three_amounts :: dataframe where
  "three_amounts =
     sample_batch [transaction 10 ''B1'' ''C1'' (Num 1) (Timestamp 0),
                   transaction 20 ''B1'' ''C2'' (Num 3) (Timestamp 0),
                   transaction 30 ''B1'' ''C3'' (Num 5) (Timestamp 0)]"

section \<open>Provenance of records\<close>

text \<open>
  \<open>derived_from C out inp\<close>: every record of \<open>out\<close> is a record of \<open>inp\<close> (same index
  label) whose cells differ from it at most in the columns \<open>C\<close>.
\<close>

definition derived_from :: "string set \<Rightarrow> dataframe \<Rightarrow> dataframe \<Rightarrow> bool" where
  "derived_from C out inp \<longleftrightarrow>
     (\<forall>r \<in> set (rows out). \<exists>r0 \<in> set (rows inp).
         idx r = idx r0 \<and> (\<forall>c. c \<notin> C \<longrightarrow> cell_at r c = cell_at r0 c))"

section \<open>Basic facts about frames\<close>

lemma rows_set_column:
  "rows (set_column c f df) = map (\<lambda>r. r\<lparr>cells := (cells r)(c \<mapsto> f r)\<rparr>) (rows df)"
  by (simp add: set_column_def)

lemma rows_select_rows [simp]: "rows (select_rows P df) = filter P (rows df)"
  by (simp add: select_rows_def)

lemma columns_select_rows [simp]: "columns (select_rows P df) = columns df"
  by (simp add: select_rows_def)

lemma set_columns_set_column [simp]:
  "set (columns (set_column c f df)) = insert c (set (columns df))"
  by (auto simp: set_column_def)

lemma cell_at_update [simp]:
  "cell_at (r\<lparr>cells := (cells r)(c \<mapsto> v)\<rparr>) c' = (if c' = c then v else cell_at r c')"
  by (simp add: cell_at_def)

section \<open>Schema validation and the fatal error\<close>

















section \<open>The amount range check\<close>

lemma convert_amount_numeric:
  assumes "r \<in> set (rows (convert_amount e df))"
  shows "\<exists>a. cell_at r ''amount'' = Num a"
proof -
  define df1 where "df1 = set_column ''amount'' (\<lambda>r. num_cell (to_numeric e (cell_at r ''amount''))) df"
  have step: "\<exists>a. cell_at r ''amount'' = Num a"
    if "r \<in> set (rows df1)" "cell_at r ''amount'' \<noteq> Null" for r
    using that by (auto simp: df1_def rows_set_column num_cell_def split: option.splits)
  show ?thesis
  proof (cases "count_rows (\<lambda>r. cell_at r ''amount'' = Null) df1 > 0")
    case True
    then have "rows (convert_amount e df) = filter (\<lambda>r. cell_at r ''amount'' \<noteq> Null) (rows df1)"
      by (simp add: convert_amount_def Let_def dropna_def df1_def [symmetric])
    with assms step show ?thesis by auto
  next
    case False
    then have eq: "convert_amount e df = df1"
      by (simp add: convert_amount_def Let_def df1_def [symmetric])
    from False have "\<forall>r \<in> set (rows df1). cell_at r ''amount'' \<noteq> Null"
      by (simp add: count_rows_def filter_empty_conv)
    with assms eq step show ?thesis by metis
  qed
qed

lemma validate_amount_range_rows:
  assumes num: "\<forall>r \<in> set (rows df). \<exists>a. cell_at r ''amount'' = Num a"
  shows "rows (validate_amount_range cfg df) =
         filter (\<lambda>r. \<exists>a. cell_at r ''amount'' = Num a \<and> 0 < a \<and> a \<le> max_transaction_amount cfg) (rows df)"
proof -
  let ?P = "\<lambda>r. num_gt (cell_at r ''amount'') 0 \<and> num_le (cell_at r ''amount'') (max_transaction_amount cfg)"
  let ?Q = "\<lambda>r. \<exists>a. cell_at r ''amount'' = Num a \<and> 0 < a \<and> a \<le> max_transaction_amount cfg"
  have PQ: "?P = ?Q"
    by (auto simp: num_gt_def num_le_def fun_eq_iff split: cell.splits)
  show ?thesis
  proof (cases "count_rows (\<lambda>r. num_le (cell_at r ''amount'') 0 \<or> num_gt (cell_at r ''amount'') (max_transaction_amount cfg)) df > 0")
    case True
    then show ?thesis by (simp add: validate_amount_range_def Let_def PQ)
  next
    case False
    then have none: "\<forall>r \<in> set (rows df). \<not> (num_le (cell_at r ''amount'') 0 \<or> num_gt (cell_at r ''amount'') (max_transaction_amount cfg))"
      by (simp add: count_rows_def filter_empty_conv)
    have "\<forall>r \<in> set (rows df). ?Q r"
    proof
      fix r assume r: "r \<in> set (rows df)"
      from num r obtain a where a: "cell_at r ''amount'' = Num a" by blast
      from none r a show "?Q r" by (auto simp: num_le_def num_gt_def)
    qed
    then have "filter ?Q (rows df) = rows df" by (simp add: filter_id_conv)
    with False show ?thesis by (simp add: validate_amount_range_def Let_def)
  qed
qed

lemma validate_amount_range_min: "validate_amount_range (cfg\<lparr>min_transaction_amount := m\<rparr>) df = validate_amount_range cfg df"
  by (simp add: validate_amount_range_def Let_def)

lemma validate_column_types_min: "validate_column_types (cfg\<lparr>min_transaction_amount := m\<rparr>) e df = validate_column_types cfg e df"
  by (simp add: validate_column_types_def validate_amount_range_min round_amount_def Let_def)

text \<open>
  C10. The range check of the normalizer does not depend on \<open>min_transaction_amount\<close>:
  changing that option changes neither the range check nor the whole normalizer. After
  the numeric conversion the check keeps exactly the records with
  \<open>0 < amount \<le> max_transaction_amount\<close>, so a record with
  \<open>0 < amount < min_transaction_amount\<close> survives it.
\<close>

theorem amount_range_ignores_minimum:
  "validate_amount_range (cfg\<lparr>min_transaction_amount := m\<rparr>) df = validate_amount_range cfg df
   \<and> validate_column_types (cfg\<lparr>min_transaction_amount := m\<rparr>) e df = validate_column_types cfg e df
   \<and> rows (validate_amount_range cfg (convert_amount e df)) =
       filter (\<lambda>r. \<exists>a. cell_at r ''amount'' = Num a \<and> 0 < a \<and> a \<le> max_transaction_amount cfg)
         (rows (convert_amount e df))
   \<and> (\<forall>r \<in> set (rows (convert_amount e df)). \<forall>a.
         cell_at r ''amount'' = Num a \<and> 0 < a \<and> a < min_transaction_amount cfg
           \<and> a \<le> max_transaction_amount cfg
         \<longrightarrow> r \<in> set (rows (validate_amount_range cfg (convert_amount e df))))"
proof -
  have rows_eq: "rows (validate_amount_range cfg (convert_amount e df)) =
       filter (\<lambda>r. \<exists>a. cell_at r ''amount'' = Num a \<and> 0 < a \<and> a \<le> max_transaction_amount cfg)
         (rows (convert_amount e df))"
    by (rule validate_amount_range_rows) (blast intro: convert_amount_numeric)
  show ?thesis
    by (simp only: validate_amount_range_min validate_column_types_min rows_eq) auto
qed

theorem amount_range_ignores_minimum_witness:
  "(1 / 200 :: real) < min_transaction_amount get_default_config
   \<and> map (\<lambda>r. cell_at r ''amount'')
         (rows (validate_amount_range get_default_config
            (convert_amount sample_env
               (sample_batch [transaction 0 ''B1'' ''C1'' (Num (1 / 200)) (Timestamp 0)]))))
       = [Num (1 / 200)]"
proof -
  let ?df = "sample_batch [transaction 0 ''B1'' ''C1'' (Num (1 / 200)) (Timestamp 0)]"
  have kept: "rows (validate_amount_range get_default_config (convert_amount sample_env ?df)) =
       filter (\<lambda>r. \<exists>a. cell_at r ''amount'' = Num a \<and> 0 < a
                       \<and> a \<le> max_transaction_amount get_default_config)
         (rows (convert_amount sample_env ?df))"
    using amount_range_ignores_minimum [where cfg = get_default_config and m = 0
        and e = sample_env and df = ?df]
    by (elim conjE)
  show ?thesis
    unfolding kept
    by (simp add: get_default_config_def convert_amount_def sample_batch_def transaction_def
        set_column_def count_rows_def cell_at_def to_numeric_def num_cell_def dropna_def Let_def)
      (rule exI [of _ "1 / 200"], simp)
qed

section \<open>The quality report\<close>

lemma generate_quality_report_fields:
  assumes "generate_quality_report p e original_df cleaned_df anomalies_df = (p', Inr rep)"
  shows "total_records rep = length (rows original_df)"
    and "valid_records rep = length (rows cleaned_df)"
    and "quality_score rep =
           (if length (rows original_df) > 0
            then float_round e
                   (float_mul e (float_div e (real (length (rows cleaned_df)))
                                    (real (length (rows original_df)))) 100) 2
            else 0)"
    and "quality_level rep =
           quality_level_of
             (if length (rows original_df) > 0
              then float_mul e (float_div e (real (length (rows cleaned_df)))
                                  (real (length (rows original_df)))) 100
              else 0)"
    and "p' = p\<lparr>quality_report := Some rep\<rparr>"
  using assms
  by (auto simp: generate_quality_report_def Let_def py_round_def number_value_def
      split: sum.splits)

lemma generate_quality_report_succeeds:
  assumes "duplicated (filter (\<lambda>col. col \<in> set (columns original_df)) duplicate_columns) original_df = Inr d"
  shows "\<exists>p' rep. generate_quality_report p e original_df cleaned_df anomalies_df = (p', Inr rep)"
  using assms by (simp add: generate_quality_report_def Let_def)

lemma sample_duplicated:
  "rs \<noteq> [] \<Longrightarrow> \<exists>d. duplicated (filter (\<lambda>col. col \<in> set (columns (sample_batch rs))) duplicate_columns) (sample_batch rs) = Inr d"
  by (simp add: duplicated_def sample_batch_def df_empty_def duplicate_columns_def)

lemma sample_float_ops:
  "float_div sample_env a b = a / b" "float_mul sample_env a b = a * b"
  "float_round sample_env = decimal_round"
  by (simp_all add: sample_env_def)

text \<open>
  C3. A report that \<open>generate_quality_report\<close> returns has \<open>total_records\<close> the size of
  the original batch, \<open>valid_records\<close> the size of the final normal set, and
  \<open>quality_score = round(valid_records / total_records * 100, 2)\<close> when
  \<open>total_records > 0\<close>, and 0 otherwise. The division, the multiplication and \<open>round\<close>
  are the float operations of the source, whatever they round to.
\<close>

theorem quality_score_is_rounded_ratio:
  assumes "generate_quality_report p e original_df cleaned_df anomalies_df = (p', Inr rep)"
  shows "total_records rep = length (rows original_df)
       \<and> valid_records rep = length (rows cleaned_df)
       \<and> quality_score rep =
           (if total_records rep > 0
            then float_round e
                   (float_mul e (float_div e (real (valid_records rep))
                                    (real (total_records rep))) 100) 2
            else 0)"
  using generate_quality_report_fields(1-3) [OF assms]
  by simp

theorem quality_score_is_rounded_ratio_witness:
  "\<exists>p' rep. generate_quality_report (new_processor get_default_config) sample_env
        (sample_batch [transaction 0 ''B1'' ''C1'' (Num 5) (Timestamp 0),
                       transaction 1 ''B1'' ''C2'' Null (Timestamp 0),
                       transaction 2 ''B1'' ''C3'' (Num 7) (Timestamp 0),
                       transaction 3 ''B1'' ''C4'' (Num 9) (Timestamp 0)])
        (sample_batch [transaction 0 ''B1'' ''C1'' (Num 5) (Timestamp 0),
                       transaction 2 ''B1'' ''C3'' (Num 7) (Timestamp 0),
                       transaction 3 ''B1'' ''C4'' (Num 9) (Timestamp 0)])
        empty_frame = (p', Inr rep)
     \<and> total_records rep = 4 \<and> valid_records rep = 3 \<and> quality_score rep = 75"
proof -
  let ?o = "sample_batch [transaction 0 ''B1'' ''C1'' (Num 5) (Timestamp 0),
                       transaction 1 ''B1'' ''C2'' Null (Timestamp 0),
                       transaction 2 ''B1'' ''C3'' (Num 7) (Timestamp 0),
                       transaction 3 ''B1'' ''C4'' (Num 9) (Timestamp 0)]"
  let ?c = "sample_batch [transaction 0 ''B1'' ''C1'' (Num 5) (Timestamp 0),
                       transaction 2 ''B1'' ''C3'' (Num 7) (Timestamp 0),
                       transaction 3 ''B1'' ''C4'' (Num 9) (Timestamp 0)]"
  obtain d where "duplicated (filter (\<lambda>col. col \<in> set (columns ?o)) duplicate_columns) ?o = Inr d"
    using sample_duplicated [of "rows ?o"] by (auto simp: sample_batch_def)
  then obtain p' rep where g: "generate_quality_report (new_processor get_default_config) sample_env ?o ?c empty_frame = (p', Inr rep)"
    using generate_quality_report_succeeds by blast
  have r: "decimal_round 75 2 = 75"
    by (simp add: decimal_round_def round_half_even_def Let_def)
  from quality_score_is_rounded_ratio [OF g]
  have "total_records rep = 4 \<and> valid_records rep = 3 \<and> quality_score rep = 75"
    by (simp add: sample_batch_def sample_float_ops r)
  with g show ?thesis by blast
qed

text \<open>
  C4 (amended). The quality level is decided by the score before it is rounded, that is
  by the float \<open>valid_records / total_records * 100\<close> (0 for an empty original batch), with
  lower-inclusive tiers: EXCELLENT from 95, GOOD from 85 below 95, ACCEPTABLE from 75
  below 85, POOR below 75. The \<open>quality_score\<close> field is what \<open>round\<close> makes of that score
  at two decimals.
\<close>

theorem quality_level_from_unrounded_score:
  assumes "generate_quality_report p e original_df cleaned_df anomalies_df = (p', Inr rep)"
  shows "\<exists>score.
           score = (if length (rows original_df) > 0
                    then float_mul e (float_div e (real (length (rows cleaned_df)))
                                        (real (length (rows original_df)))) 100
                    else 0)
         \<and> quality_score rep
             = (if length (rows original_df) > 0 then float_round e score 2 else 0)
         \<and> (quality_level rep = EXCELLENT \<longleftrightarrow> score \<ge> 95)
         \<and> (quality_level rep = GOOD \<longleftrightarrow> 85 \<le> score \<and> score < 95)
         \<and> (quality_level rep = ACCEPTABLE \<longleftrightarrow> 75 \<le> score \<and> score < 85)
         \<and> (quality_level rep = POOR \<longleftrightarrow> score < 75)"
  using generate_quality_report_fields(3,4) [OF assms]
  by (simp add: quality_level_of_def)

theorem quality_level_from_unrounded_score_witness:
  "\<exists>p' rep. generate_quality_report (new_processor get_default_config) sample_env
        (sample_batch (replicate 4 (transaction 0 ''B1'' ''C1'' (Num 5) (Timestamp 0))))
        (sample_batch (replicate 3 (transaction 0 ''B1'' ''C1'' (Num 5) (Timestamp 0))))
        empty_frame = (p', Inr rep)
     \<and> quality_score rep = 75 \<and> quality_level rep = ACCEPTABLE"
proof -
  let ?r = "transaction 0 ''B1'' ''C1'' (Num 5) (Timestamp 0)"
  obtain d where "duplicated (filter (\<lambda>col. col \<in> set (columns (sample_batch (replicate 4 ?r)))) duplicate_columns) (sample_batch (replicate 4 ?r)) = Inr d"
    using sample_duplicated [of "replicate 4 ?r"] by auto
  then obtain p' rep where g: "generate_quality_report (new_processor get_default_config) sample_env
       (sample_batch (replicate 4 ?r)) (sample_batch (replicate 3 ?r)) empty_frame = (p', Inr rep)"
    using generate_quality_report_succeeds by blast
  have r: "decimal_round 75 2 = 75"
    by (simp add: decimal_round_def round_half_even_def Let_def)
  from quality_level_from_unrounded_score [OF g]
  have "quality_score rep = 75 \<and> quality_level rep = ACCEPTABLE"
    by (simp add: sample_batch_def sample_float_ops r)
  with g show ?thesis by blast
qed

text \<open>
  C4 as stated fails: of 32768 records 24575 are valid, the score is 74.9969482421875
  (the division by a power of two and the product are exact in binary floating point),
  the report shows \<open>quality_score = 75.0\<close> and its level is POOR, not ACCEPTABLE.
\<close>

theorem quality_level_differs_from_rounded_score:
  "\<not> isl (snd (generate_quality_report (new_processor get_default_config) sample_env
        (sample_batch (replicate 24575 (transaction 0 ''B1'' ''C1'' (Num 5) (Timestamp 0))
                       @ replicate 8193 (transaction 0 ''B1'' ''C1'' Null (Timestamp 0))))
        (sample_batch (replicate 24575 (transaction 0 ''B1'' ''C1'' (Num 5) (Timestamp 0))))
        empty_frame))
   \<and> quality_score (projr (snd (generate_quality_report (new_processor get_default_config)
        sample_env
        (sample_batch (replicate 24575 (transaction 0 ''B1'' ''C1'' (Num 5) (Timestamp 0))
                       @ replicate 8193 (transaction 0 ''B1'' ''C1'' Null (Timestamp 0))))
        (sample_batch (replicate 24575 (transaction 0 ''B1'' ''C1'' (Num 5) (Timestamp 0))))
        empty_frame))) = 75
   \<and> quality_level (projr (snd (generate_quality_report (new_processor get_default_config)
        sample_env
        (sample_batch (replicate 24575 (transaction 0 ''B1'' ''C1'' (Num 5) (Timestamp 0))
                       @ replicate 8193 (transaction 0 ''B1'' ''C1'' Null (Timestamp 0))))
        (sample_batch (replicate 24575 (transaction 0 ''B1'' ''C1'' (Num 5) (Timestamp 0))))
        empty_frame))) = POOR"
proof -
  let ?r = "transaction 0 ''B1'' ''C1'' (Num 5) (Timestamp 0)"
  let ?o = "sample_batch (replicate 24575 ?r
                         @ replicate 8193 (transaction 0 ''B1'' ''C1'' Null (Timestamp 0)))"
  obtain d where
    "duplicated (filter (\<lambda>col. col \<in> set (columns ?o)) duplicate_columns) ?o = Inr d"
    using sample_duplicated
      [of "replicate 24575 ?r @ replicate 8193 (transaction 0 ''B1'' ''C1'' Null (Timestamp 0))"]
    by auto
  then obtain p' rep where g: "generate_quality_report (new_processor get_default_config) sample_env
       ?o (sample_batch (replicate 24575 ?r)) empty_frame = (p', Inr rep)"
    using generate_quality_report_succeeds by blast
  have r: "decimal_round (614375 / 8192) 2 = 75"
    by (simp add: decimal_round_def round_half_even_def Let_def)
  from generate_quality_report_fields(3,4) [OF g]
  have "quality_score rep = 75 \<and> quality_level rep = POOR"
    by (simp add: sample_batch_def sample_float_ops r quality_level_of_def)
  with g show ?thesis by simp
qed

section \<open>Duplicate detection\<close>

lemma length_seen_before [simp]: "length (seen_before seen ks) = length ks"
  by (induction ks arbitrary: seen) auto

lemma seen_before_nth:
  "i < length ks \<Longrightarrow>
   seen_before seen ks ! i \<longleftrightarrow> ks ! i \<in> set seen \<or> (\<exists>j<i. ks ! j = ks ! i)"
proof (induction ks arbitrary: seen i)
  case Nil
  then show ?case by simp
next
  case (Cons k ks)
  show ?case
  proof (cases i)
    case 0
    then show ?thesis by simp
  next
    case (Suc n)
    with Cons.prems have n: "n < length ks" by simp
    have "(\<exists>j<Suc n. (k # ks) ! j = ks ! n) \<longleftrightarrow> k = ks ! n \<or> (\<exists>j<n. ks ! j = ks ! n)"
      by (auto simp: less_Suc_eq_0_disj)
    with Cons.IH [OF n, of "k # seen"] Suc show ?thesis by auto
  qed
qed

lemma mask_rows_Cons [simp]:
  "mask_rows (f # fs) (r # rs) = (if f then r # mask_rows fs rs else mask_rows fs rs)"
  by (simp add: mask_rows_def)

lemma mask_rows_Nil [simp]: "mask_rows fs [] = []" "mask_rows [] rs = []"
  by (simp_all add: mask_rows_def)

lemma mask_rows_subset: "set (mask_rows fs rs) \<subseteq> set rs"
  by (auto simp: mask_rows_def dest: set_zip_leftD)

lemma mask_rows_index:
  "length fs = length rs \<Longrightarrow>
   mask_rows fs rs = map ((!) rs) (filter (\<lambda>i. fs ! i) [0..<length rs])"
proof (induction rs arbitrary: fs rule: rev_induct)
  case Nil
  then show ?case by simp
next
  case (snoc r rs)
  then obtain f fs' where fs: "fs = fs' @ [f]" and len: "length fs' = length rs"
    by (cases fs rule: rev_cases) auto
  have split: "mask_rows (fs' @ [f]) (rs @ [r]) = mask_rows fs' rs @ (if f then [r] else [])"
    using len by (simp add: mask_rows_def)
  have A: "map ((!) (rs @ [r])) (filter ((!) (fs' @ [f])) [0..<length rs])
        = map ((!) rs) (filter ((!) fs') [0..<length rs])"
    using len by (auto simp: nth_append intro!: map_cong filter_cong)
  have B: "(fs' @ [f]) ! length rs = f" "(rs @ [r]) ! length rs = r"
    using len by (simp_all add: nth_append)
  show ?case
    unfolding fs split snoc.IH [OF len] by (simp add: A B)
qed

lemma kept_keys_distinct:
  "distinct (map k (mask_rows (map Not (seen_before seen (map k rs))) rs))
   \<and> set (map k (mask_rows (map Not (seen_before seen (map k rs))) rs)) \<inter> set seen = {}"
proof (induction rs arbitrary: seen)
  case Nil
  then show ?case by simp
next
  case (Cons r rs)
  from Cons.IH [of "k r # seen"] show ?case by auto
qed

lemma seen_before_distinct:
  "distinct ks \<Longrightarrow> set ks \<inter> set seen = {} \<Longrightarrow> filter id (seen_before seen ks) = []"
  by (induction ks arbitrary: seen) auto

lemma duplicated_flags:
  "cols \<noteq> [] \<Longrightarrow> \<not> df_empty df \<Longrightarrow>
   duplicated cols df = Inr (seen_before [] (map (identity_key cols) (rows df)))"
  by (simp add: duplicated_def)

lemma mask_rows_all:
  "filter id fs = [] \<Longrightarrow> length fs = length rs \<Longrightarrow> mask_rows (map Not fs) rs = rs"
proof (induction rs arbitrary: fs)
  case Nil
  then show ?case by simp
next
  case (Cons r rs)
  then obtain f fs' where "fs = f # fs'" by (cases fs) auto
  with Cons show ?case by (auto split: if_splits)
qed

lemma detect_duplicates_rows:
  assumes rm: "remove_duplicates cfg"
    and av: "filter (\<lambda>col. col \<in> set (columns df)) duplicate_columns \<noteq> []"
  shows "detect_duplicates cfg df =
         Inr (df\<lparr>rows := mask_rows
                (map Not (seen_before []
                   (map (identity_key (filter (\<lambda>col. col \<in> set (columns df)) duplicate_columns))
                      (rows df))))
                (rows df)\<rparr>)"
proof (cases "rows df = []")
  case True
  then show ?thesis using rm by (simp add: detect_duplicates_def duplicated_def df_empty_def)
next
  case False
  from av have "columns df \<noteq> []" by auto
  with False have ne: "\<not> df_empty df" by (simp add: df_empty_def)
  show ?thesis
    using rm by (simp add: detect_duplicates_def duplicated_flags [OF av ne] Let_def mask_rows_all)
qed

lemma detect_duplicates_idem:
  assumes "detect_duplicates cfg df = Inr d"
  shows "detect_duplicates cfg d = Inr d"
proof (cases "remove_duplicates cfg")
  case False
  then show ?thesis by (simp add: detect_duplicates_def)
next
  case rm: True
  let ?av = "\<lambda>df. filter (\<lambda>col. col \<in> set (columns df)) duplicate_columns"
  show ?thesis
  proof (cases "?av df = []")
    case True
    with assms rm have "df_empty df \<and> d = df"
      by (auto simp: detect_duplicates_def duplicated_def split: if_splits)
    then show ?thesis using rm by (simp add: detect_duplicates_def duplicated_def)
  next
    case av: False
    let ?k = "identity_key (?av df)"
    let ?kept = "mask_rows (map Not (seen_before [] (map ?k (rows df)))) (rows df)"
    from assms detect_duplicates_rows [OF rm av] have d: "d = df\<lparr>rows := ?kept\<rparr>" by simp
    then have cols: "columns d = columns df" and rows: "rows d = ?kept" by simp_all
    from av cols have av': "?av d \<noteq> []" by simp
    have "filter id (seen_before [] (map ?k ?kept)) = []"
      using kept_keys_distinct [of ?k "[]" "rows df"] by (intro seen_before_distinct) auto
    then have "mask_rows (map Not (seen_before [] (map ?k ?kept))) ?kept = ?kept"
      by (rule mask_rows_all) simp
    with detect_duplicates_rows [OF rm av'] cols rows d show ?thesis by simp
  qed
qed

text \<open>
  C8. With \<open>remove_duplicates\<close> off the batch is returned unchanged. With it on, and the
  identity key being the columns of \<open>bank_id, customer_id, amount, transaction_date\<close>
  that the batch has (at least one of them), the result keeps, in input order, exactly
  the records whose key differs from the key of every earlier record: every record that
  repeats an earlier key is removed and the first occurrence of each key stays.
\<close>

theorem detect_duplicates_keeps_first_occurrences:
  assumes "key_cols = filter (\<lambda>col. col \<in> set (columns df)) duplicate_columns"
  shows "(\<not> remove_duplicates cfg \<longrightarrow> detect_duplicates cfg df = Inr df)
       \<and> (remove_duplicates cfg \<and> key_cols \<noteq> [] \<longrightarrow>
            detect_duplicates cfg df =
              Inr (df\<lparr>rows :=
                     map ((!) (rows df))
                       (filter (\<lambda>i. \<forall>j<i. identity_key key_cols (rows df ! j)
                                           \<noteq> identity_key key_cols (rows df ! i))
                          [0..<length (rows df)])\<rparr>))"
proof (intro conjI impI)
  show "detect_duplicates cfg df = Inr df" if "\<not> remove_duplicates cfg"
    using that by (simp add: detect_duplicates_def)
next
  assume a: "remove_duplicates cfg \<and> key_cols \<noteq> []"
  let ?ks = "map (identity_key key_cols) (rows df)"
  have "filter (\<lambda>i. map Not (seen_before [] ?ks) ! i) [0..<length (rows df)]
        = filter (\<lambda>i. \<forall>j<i. identity_key key_cols (rows df ! j)
                            \<noteq> identity_key key_cols (rows df ! i)) [0..<length (rows df)]"
  proof (rule filter_cong [OF refl])
    fix i assume "i \<in> set [0..<length (rows df)]"
    then have i: "i < length (rows df)" by simp
    then have "seen_before [] ?ks ! i \<longleftrightarrow> (\<exists>j<i. ?ks ! j = ?ks ! i)"
      by (simp add: seen_before_nth)
    also have "\<dots> \<longleftrightarrow> (\<exists>j<i. identity_key key_cols (rows df ! j) = identity_key key_cols (rows df ! i))"
      using i by auto
    finally show "map Not (seen_before [] ?ks) ! i
        \<longleftrightarrow> (\<forall>j<i. identity_key key_cols (rows df ! j) \<noteq> identity_key key_cols (rows df ! i))"
      using i by simp
  qed
  then have "mask_rows (map Not (seen_before [] ?ks)) (rows df)
        = map ((!) (rows df))
            (filter (\<lambda>i. \<forall>j<i. identity_key key_cols (rows df ! j)
                                \<noteq> identity_key key_cols (rows df ! i)) [0..<length (rows df)])"
    by (simp add: mask_rows_index)
  with a assms detect_duplicates_rows [of cfg df]
  show "detect_duplicates cfg df =
              Inr (df\<lparr>rows :=
                     map ((!) (rows df))
                       (filter (\<lambda>i. \<forall>j<i. identity_key key_cols (rows df ! j)
                                           \<noteq> identity_key key_cols (rows df ! i))
                          [0..<length (rows df)])\<rparr>)"
    by simp
qed

theorem detect_duplicates_keeps_first_occurrences_witness:
  "remove_duplicates get_default_config
   \<and> detect_duplicates get_default_config
        (sample_batch [transaction 0 ''BNK001'' ''C1'' (Num 100) (Day 20089),
                       transaction 1 ''BNK001'' ''C1'' (Num 100) (Day 20089),
                       transaction 2 ''BNK001'' ''C2'' (Num 5000) (Day 20089)])
       = Inr (sample_batch [transaction 0 ''BNK001'' ''C1'' (Num 100) (Day 20089),
                            transaction 2 ''BNK001'' ''C2'' (Num 5000) (Day 20089)])"
  using detect_duplicates_keeps_first_occurrences [OF refl, of get_default_config
      "sample_batch [transaction 0 ''BNK001'' ''C1'' (Num 100) (Day 20089),
                       transaction 1 ''BNK001'' ''C1'' (Num 100) (Day 20089),
                       transaction 2 ''BNK001'' ''C2'' (Num 5000) (Day 20089)]"]
  by (simp add: get_default_config_def sample_batch_def duplicate_columns_def identity_key_def
      cell_at_def transaction_def All_less_Suc numeral_2_eq_2 numeral_3_eq_3)

text \<open>
  C7. Deduplication is idempotent: whenever \<open>detect_duplicates\<close> returns a batch,
  applying it to that batch returns the same batch. It does return one when
  \<open>remove_duplicates\<close> is off, when the batch has one of the identity-key columns, or
  when the batch is empty.
\<close>

theorem detect_duplicates_idempotent:
  "(\<not> remove_duplicates cfg
      \<or> filter (\<lambda>col. col \<in> set (columns df)) duplicate_columns \<noteq> [] \<or> df_empty df
     \<longrightarrow> (\<exists>d. detect_duplicates cfg df = Inr d))
   \<and> (\<forall>d. detect_duplicates cfg df = Inr d \<longrightarrow> detect_duplicates cfg d = Inr d)"
proof (intro conjI impI allI)
  assume "\<not> remove_duplicates cfg
      \<or> filter (\<lambda>col. col \<in> set (columns df)) duplicate_columns \<noteq> [] \<or> df_empty df"
  then show "\<exists>d. detect_duplicates cfg df = Inr d"
    by (auto simp: detect_duplicates_def duplicated_def Let_def)
next
  fix d assume "detect_duplicates cfg df = Inr d"
  then show "detect_duplicates cfg d = Inr d" by (rule detect_duplicates_idem)
qed

theorem detect_duplicates_idempotent_witness:
  "detect_duplicates get_default_config
        (sample_batch [transaction 0 ''BNK001'' ''C1'' (Num 100) (Day 20089),
                       transaction 1 ''BNK001'' ''C1'' (Num 100) (Day 20089),
                       transaction 2 ''BNK001'' ''C2'' (Num 5000) (Day 20089)])
       = Inr (sample_batch [transaction 0 ''BNK001'' ''C1'' (Num 100) (Day 20089),
                            transaction 2 ''BNK001'' ''C2'' (Num 5000) (Day 20089)])
   \<and> detect_duplicates get_default_config
        (sample_batch [transaction 0 ''BNK001'' ''C1'' (Num 100) (Day 20089),
                       transaction 2 ''BNK001'' ''C2'' (Num 5000) (Day 20089)])
       = Inr (sample_batch [transaction 0 ''BNK001'' ''C1'' (Num 100) (Day 20089),
                            transaction 2 ''BNK001'' ''C2'' (Num 5000) (Day 20089)])"
proof -
  let ?in = "sample_batch [transaction 0 ''BNK001'' ''C1'' (Num 100) (Day 20089),
                       transaction 1 ''BNK001'' ''C1'' (Num 100) (Day 20089),
                       transaction 2 ''BNK001'' ''C2'' (Num 5000) (Day 20089)]"
  let ?out = "sample_batch [transaction 0 ''BNK001'' ''C1'' (Num 100) (Day 20089),
                            transaction 2 ''BNK001'' ''C2'' (Num 5000) (Day 20089)]"
  have first: "detect_duplicates get_default_config ?in = Inr ?out"
    by (simp add: detect_duplicates_def duplicated_def df_empty_def get_default_config_def
        sample_batch_def duplicate_columns_def identity_key_def cell_at_def transaction_def
        Let_def)
  with detect_duplicates_idempotent [of get_default_config ?in]
  have "detect_duplicates get_default_config ?out = Inr ?out" by blast
  with first show ?thesis by simp
qed

section \<open>Anomaly detection\<close>

lemma rows_drop_column:
  "rows (drop_column c df) = map (\<lambda>r. r\<lparr>cells := (cells r) |` (- {c})\<rparr>) (rows df)"
  by (simp add: drop_column_def)

lemma filter_set_column:
  "filter (\<lambda>r. P (cell_at r c)) (rows (set_column c f df))
   = map (\<lambda>r. r\<lparr>cells := (cells r)(c \<mapsto> f r)\<rparr>) (filter (\<lambda>r. P (f r)) (rows df))"
  by (simp add: rows_set_column filter_map comp_def)

lemma detect_anomalies_on:
  assumes "handle_outliers cfg" "''bank_id'' \<in> set (columns df)" "''amount'' \<in> set (columns df)"
    "\<forall>r \<in> set (rows df). is_numeric (cell_at r ''amount'')"
  shows "fst (detect_anomalies cfg e df) = set_column ''amount_zscore'' (amount_zscore e df) df"
    and "\<exists>normal anomalies. snd (detect_anomalies cfg e df) = Inr (normal, anomalies)
          \<and> rows normal =
              map (\<lambda>r. r\<lparr>cells := (cells r) |` (- {''amount_zscore''})\<rparr>)
                (filter (\<lambda>r. num_le (amount_zscore e df r) (anomaly_threshold_std cfg)) (rows df))
          \<and> map idx (rows anomalies) =
              map idx (filter (\<lambda>r. num_gt (amount_zscore e df r) (anomaly_threshold_std cfg)) (rows df))
          \<and> (\<forall>a \<in> set (rows anomalies). \<exists>r \<in> set (rows df).
                 num_gt (amount_zscore e df r) (anomaly_threshold_std cfg) \<and> idx a = idx r
                 \<and> (\<forall>c. c \<notin> {''amount_zscore'', ''anomaly_type'', ''detected_at''}
                        \<longrightarrow> cells a c = cells r c))"
proof -
  let ?thr = "anomaly_threshold_std cfg"
  let ?dfz = "set_column ''amount_zscore'' (amount_zscore e df) df"
  let ?norm = "select_rows (\<lambda>r. num_le (cell_at r ''amount_zscore'') ?thr) ?dfz"
  define anom where "anom = select_rows (\<lambda>r. num_gt (cell_at r ''amount_zscore'') ?thr) ?dfz"
  let ?tagged = "if length (rows anom) > 0
             then set_column ''detected_at'' (\<lambda>r. Timestamp (now_238 e))
                    (set_column ''anomaly_type'' (\<lambda>r. Str ''statistical_outlier'') anom)
             else anom"
  from assms have run: "detect_anomalies cfg e df = (?dfz, Inr (drop_column ''amount_zscore'' ?norm, ?tagged))"
    by (simp add: detect_anomalies_def Let_def anom_def)
  then show "fst (detect_anomalies cfg e df) = ?dfz" by simp
  have an0: "rows anom = map (\<lambda>r. r\<lparr>cells := (cells r)(''amount_zscore'' \<mapsto> amount_zscore e df r)\<rparr>)
                (filter (\<lambda>r. num_gt (amount_zscore e df r) ?thr) (rows df))"
    by (simp add: anom_def filter_set_column [where P = "\<lambda>c. num_gt c ?thr"])
  have n: "rows (drop_column ''amount_zscore'' ?norm) =
              map (\<lambda>r. r\<lparr>cells := (cells r) |` (- {''amount_zscore''})\<rparr>)
                (filter (\<lambda>r. num_le (amount_zscore e df r) ?thr) (rows df))"
    by (simp add: rows_drop_column filter_set_column [where P = "\<lambda>c. num_le c ?thr"] comp_def)
  have ai: "map idx (rows ?tagged) = map idx (filter (\<lambda>r. num_gt (amount_zscore e df r) ?thr) (rows df))"
    by (simp add: rows_set_column an0 comp_def)
  have af: "\<forall>a \<in> set (rows ?tagged). \<exists>r \<in> set (rows df).
                 num_gt (amount_zscore e df r) ?thr \<and> idx a = idx r
                 \<and> (\<forall>c. c \<notin> {''amount_zscore'', ''anomaly_type'', ''detected_at''}
                        \<longrightarrow> cells a c = cells r c)"
    by (auto simp: rows_set_column an0)
  from run n ai af
  show "\<exists>normal anomalies. snd (detect_anomalies cfg e df) = Inr (normal, anomalies)
          \<and> rows normal =
              map (\<lambda>r. r\<lparr>cells := (cells r) |` (- {''amount_zscore''})\<rparr>)
                (filter (\<lambda>r. num_le (amount_zscore e df r) ?thr) (rows df))
          \<and> map idx (rows anomalies) =
              map idx (filter (\<lambda>r. num_gt (amount_zscore e df r) ?thr) (rows df))
          \<and> (\<forall>a \<in> set (rows anomalies). \<exists>r \<in> set (rows df).
                 num_gt (amount_zscore e df r) ?thr \<and> idx a = idx r
                 \<and> (\<forall>c. c \<notin> {''amount_zscore'', ''anomaly_type'', ''detected_at''}
                        \<longrightarrow> cells a c = cells r c))"
    by (intro exI [of _ "drop_column ''amount_zscore'' ?norm"] exI [of _ ?tagged]) simp
qed

lemma std_positive_mean: "std e x = Some s \<Longrightarrow> \<exists>m. mean e x = Some m"
  by (auto simp: std_def mean_def split: if_splits)

lemma amount_zscore_numeric:
  assumes "cell_at r ''bank_id'' \<noteq> Null" "cell_at r ''amount'' = Num a"
  shows "\<exists>z. amount_zscore e df r = Num z"
  using assms
  by (auto simp: amount_zscore_def Let_def split: option.splits dest: std_positive_mean)


section \<open>Records through the normalizer\<close>

lemma derived_from_refl: "derived_from C df df"
  by (auto simp: derived_from_def)

lemma derived_from_trans:
  "derived_from C1 b a \<Longrightarrow> derived_from C2 c b \<Longrightarrow> C1 \<union> C2 \<subseteq> C \<Longrightarrow> derived_from C c a"
proof (unfold derived_from_def, intro ballI)
  fix r
  assume ab: "\<forall>r \<in> set (rows b). \<exists>r0 \<in> set (rows a).
                 idx r = idx r0 \<and> (\<forall>c. c \<notin> C1 \<longrightarrow> cell_at r c = cell_at r0 c)"
    and bc: "\<forall>r \<in> set (rows c). \<exists>r0 \<in> set (rows b).
                 idx r = idx r0 \<and> (\<forall>c. c \<notin> C2 \<longrightarrow> cell_at r c = cell_at r0 c)"
    and sub: "C1 \<union> C2 \<subseteq> C" and r: "r \<in> set (rows c)"
  from bc r obtain r1 where r1: "r1 \<in> set (rows b)" "idx r = idx r1"
    "\<forall>c. c \<notin> C2 \<longrightarrow> cell_at r c = cell_at r1 c" by blast
  from ab r1(1) obtain r0 where r0: "r0 \<in> set (rows a)" "idx r1 = idx r0"
    "\<forall>c. c \<notin> C1 \<longrightarrow> cell_at r1 c = cell_at r0 c" by blast
  from sub have "\<forall>c. c \<notin> C \<longrightarrow> c \<notin> C1 \<and> c \<notin> C2" by blast
  with r1 r0 show "\<exists>r0 \<in> set (rows a).
                 idx r = idx r0 \<and> (\<forall>c. c \<notin> C \<longrightarrow> cell_at r c = cell_at r0 c)"
    by (intro bexI [of _ r0]) auto
qed

lemma derived_from_select: "derived_from {} (select_rows P df) df"
  by (auto simp: derived_from_def)

lemma derived_from_set_column: "derived_from {c} (set_column c f df) df"
  by (auto simp: derived_from_def rows_set_column)

lemma clean_null_values_derived:
  assumes "clean_null_values df = Inr df_clean"
  shows "derived_from {''transaction_type'', ''description''} df_clean df"
    and "set (columns df_clean) = set (columns df)"
proof -
  let ?d0 = "dropna critical_fields df"
  let ?d1 = "if ''transaction_type'' \<in> set (columns df)
             then fillna_column ''transaction_type'' (Str ''UNKNOWN'') ?d0 else ?d0"
  let ?d2 = "if ''description'' \<in> set (columns df)
             then fillna_column ''description'' (Str ''No description'') ?d1 else ?d1"
  from assms have eq: "df_clean = ?d2"
    by (auto simp: clean_null_values_def Let_def split: option.splits)
  have a: "derived_from {} ?d0 df"
    by (simp add: dropna_def derived_from_select)
  have b: "derived_from {''transaction_type''} ?d1 ?d0"
    by (simp add: fillna_column_def derived_from_set_column derived_from_refl)
  have c: "derived_from {''description''} ?d2 ?d1"
    by (simp only: fillna_column_def derived_from_set_column derived_from_refl if_split)
       (simp add: derived_from_set_column derived_from_refl)
  have "derived_from {''transaction_type''} ?d1 df"
    by (rule derived_from_trans [OF a b]) simp
  then have "derived_from {''transaction_type'', ''description''} ?d2 df"
    by (rule derived_from_trans [OF _ c]) simp
  with eq show "derived_from {''transaction_type'', ''description''} df_clean df" by simp
  show "set (columns df_clean) = set (columns df)"
    unfolding eq by (auto simp: fillna_column_def dropna_def)
qed

lemma convert_amount_value:
  assumes "r \<in> set (rows (convert_amount e df))"
  shows "\<exists>r0 \<in> set (rows df). idx r = idx r0
           \<and> (\<exists>a. to_numeric e (cell_at r0 ''amount'') = Some a \<and> cell_at r ''amount'' = Num a)
           \<and> (\<forall>c. c \<noteq> ''amount'' \<longrightarrow> cell_at r c = cell_at r0 c)"
proof -
  let ?df1 = "set_column ''amount'' (\<lambda>r. num_cell (to_numeric e (cell_at r ''amount''))) df"
  have "set (rows (convert_amount e df)) \<subseteq> set (rows ?df1)"
    by (auto simp: convert_amount_def Let_def dropna_def)
  with assms have "r \<in> set (rows ?df1)" by blast
  then obtain r0 where r0: "r0 \<in> set (rows df)"
    and r: "r = r0\<lparr>cells := (cells r0)(''amount'' \<mapsto> num_cell (to_numeric e (cell_at r0 ''amount'')))\<rparr>"
    by (auto simp: rows_set_column)
  from convert_amount_numeric [OF assms] obtain a where a: "cell_at r ''amount'' = Num a" by blast
  with r have "to_numeric e (cell_at r0 ''amount'') = Some a"
    by (auto simp: num_cell_def split: option.splits)
  with r0 r a show ?thesis by (intro bexI [of _ r0]) auto
qed

lemma columns_convert_amount:
  "set (columns (convert_amount e df)) = insert ''amount'' (set (columns df))"
  by (simp add: convert_amount_def Let_def dropna_def)

lemma columns_validate_amount_range:
  "columns (validate_amount_range cfg df) = columns df"
  by (simp add: validate_amount_range_def Let_def)

lemma columns_round_amount:
  "set (columns (round_amount cfg e df)) = insert ''amount'' (set (columns df))"
  by (simp add: round_amount_def Let_def)

lemma columns_validate_dates:
  "set (columns (validate_dates e df)) = set (columns df)"
  by (auto simp: validate_dates_def Let_def)

lemma columns_validate_string_field:
  "set (columns (validate_string_field e df f)) = set (columns df)"
  by (auto simp: validate_string_field_def)

lemma columns_validate_transaction_type:
  "set (columns (validate_transaction_type df)) = set (columns df)"
  by (auto simp: validate_transaction_type_def)

lemma amount_after_range:
  assumes "r \<in> set (rows (validate_amount_range cfg (convert_amount e df)))"
  shows "\<exists>r0 \<in> set (rows df). idx r = idx r0
           \<and> (\<exists>a. to_numeric e (cell_at r0 ''amount'') = Some a \<and> 0 < a
                 \<and> a \<le> max_transaction_amount cfg \<and> cell_at r ''amount'' = Num a)
           \<and> (\<forall>c. c \<noteq> ''amount'' \<longrightarrow> cell_at r c = cell_at r0 c)"
proof -
  have "rows (validate_amount_range cfg (convert_amount e df)) =
         filter (\<lambda>r. \<exists>a. cell_at r ''amount'' = Num a \<and> 0 < a \<and> a \<le> max_transaction_amount cfg)
           (rows (convert_amount e df))"
    by (rule validate_amount_range_rows) (blast intro: convert_amount_numeric)
  with assms have r: "r \<in> set (rows (convert_amount e df))"
    and "\<exists>a. cell_at r ''amount'' = Num a \<and> 0 < a \<and> a \<le> max_transaction_amount cfg"
    by auto
  then obtain a where a: "cell_at r ''amount'' = Num a" "0 < a" "a \<le> max_transaction_amount cfg"
    by blast
  from convert_amount_value [OF r] a show ?thesis by auto
qed

lemma amount_after_round:
  assumes "r \<in> set (rows (round_amount cfg e (validate_amount_range cfg (convert_amount e df))))"
  shows "\<exists>r0 \<in> set (rows df). idx r = idx r0
           \<and> (\<exists>a. to_numeric e (cell_at r0 ''amount'') = Some a \<and> 0 < a
                 \<and> a \<le> max_transaction_amount cfg
                 \<and> cell_at r ''amount'' = Num (np_round e a (currency_precision cfg)))
           \<and> (\<forall>c. c \<noteq> ''amount'' \<longrightarrow> cell_at r c = cell_at r0 c)"
proof -
  from assms obtain r1 where r1: "r1 \<in> set (rows (validate_amount_range cfg (convert_amount e df)))"
    and r: "r = r1\<lparr>cells := (cells r1)(''amount'' \<mapsto>
               (case cell_at r1 ''amount'' of Num a \<Rightarrow> Num (np_round e a (currency_precision cfg)) | c \<Rightarrow> c))\<rparr>"
    by (auto simp: round_amount_def Let_def rows_set_column)
  from amount_after_range [OF r1] obtain r0 a where
    "r0 \<in> set (rows df)" "idx r1 = idx r0" "to_numeric e (cell_at r0 ''amount'') = Some a"
    "0 < a" "a \<le> max_transaction_amount cfg" "cell_at r1 ''amount'' = Num a"
    "\<forall>c. c \<noteq> ''amount'' \<longrightarrow> cell_at r1 c = cell_at r0 c"
    by blast
  with r show ?thesis by (intro bexI [of _ r0]) auto
qed

lemma validate_dates_derived: "derived_from {''transaction_date''} (validate_dates e df) df"
proof (cases "''transaction_date'' \<in> set (columns df)")
  case False
  then show ?thesis by (simp add: validate_dates_def derived_from_refl)
next
  case True
  let ?d = "set_column ''transaction_date''
              (\<lambda>r. time_cell (to_datetime e (cell_at r ''transaction_date''))) df"
  have "derived_from {} (validate_dates e df) ?d"
    using True by (simp add: validate_dates_def Let_def derived_from_select derived_from_refl)
  with derived_from_set_column show ?thesis
    by (rule derived_from_trans) simp
qed

lemma validate_dates_not_future:
  assumes "''transaction_date'' \<in> set (columns df)" "r \<in> set (rows (validate_dates e df))"
  shows "cell_at r ''transaction_date'' = Null
       \<or> (\<exists>t. cell_at r ''transaction_date'' = Timestamp t \<and> (t \<le> now_159 e \<or> t \<le> now_162 e))"
proof -
  define d where "d = set_column ''transaction_date''
              (\<lambda>r. time_cell (to_datetime e (cell_at r ''transaction_date''))) df"
  have shape: "cell_at r ''transaction_date'' = Null \<or> (\<exists>t. cell_at r ''transaction_date'' = Timestamp t)"
    if "r \<in> set (rows d)" for r
    using that by (auto simp: d_def rows_set_column time_cell_def split: option.splits)
  show ?thesis
  proof (cases "count_rows (\<lambda>r. time_gt (cell_at r ''transaction_date'') (now_159 e)) d > 0")
    case True
    with assms have "r \<in> set (rows d)" "time_le (cell_at r ''transaction_date'') (now_162 e)"
      by (simp_all add: validate_dates_def Let_def d_def [symmetric])
    then show ?thesis by (auto simp: time_le_def split: cell.splits)
  next
    case False
    with assms have r: "r \<in> set (rows d)"
      by (simp add: validate_dates_def Let_def d_def [symmetric])
    from False have "\<forall>r \<in> set (rows d). \<not> time_gt (cell_at r ''transaction_date'') (now_159 e)"
      by (simp add: count_rows_def filter_empty_conv)
    with r have "\<not> time_gt (cell_at r ''transaction_date'') (now_159 e)" by blast
    with shape [OF r] show ?thesis by (auto simp: time_gt_def)
  qed
qed

lemma validate_string_field_derived:
  "derived_from {f} (validate_string_field e df f) df"
proof (cases "f \<in> set (columns df)")
  case False
  then show ?thesis by (simp add: validate_string_field_def derived_from_refl)
next
  case True
  have "derived_from {} (validate_string_field e df f)
          (set_column f (\<lambda>r. Str (strip (astype_str e (cell_at r f)))) df)"
    using True by (simp add: validate_string_field_def derived_from_select)
  with derived_from_set_column show ?thesis
    by (rule derived_from_trans) simp
qed

lemma validate_string_field_str:
  assumes "f \<in> set (columns df)" "r \<in> set (rows (validate_string_field e df f))"
  shows "\<exists>s. cell_at r f = Str s"
  using assms by (auto simp: validate_string_field_def rows_set_column)

lemma validate_transaction_type_derived:
  "derived_from {''transaction_type''} (validate_transaction_type df) df"
  by (simp add: validate_transaction_type_def derived_from_set_column derived_from_refl)

lemma derived_fromD:
  "derived_from C out inp \<Longrightarrow> r \<in> set (rows out) \<Longrightarrow>
   \<exists>r0 \<in> set (rows inp). idx r = idx r0 \<and> (\<forall>c. c \<notin> C \<longrightarrow> cell_at r c = cell_at r0 c)"
  by (simp add: derived_from_def)

lemma validate_column_types_rows:
  assumes run: "validate_column_types cfg e df = Inr typed" and r: "r \<in> set (rows typed)"
  shows "\<exists>r0 \<in> set (rows df). idx r = idx r0
           \<and> (\<exists>a. to_numeric e (cell_at r0 ''amount'') = Some a \<and> 0 < a
                 \<and> a \<le> max_transaction_amount cfg
                 \<and> cell_at r ''amount'' = Num (np_round e a (currency_precision cfg)))"
    and "''transaction_date'' \<in> set (columns df) \<Longrightarrow>
         cell_at r ''transaction_date'' = Null
         \<or> (\<exists>t. cell_at r ''transaction_date'' = Timestamp t
                \<and> (t \<le> now_159 e \<or> t \<le> now_162 e))"
    and "''bank_id'' \<in> set (columns df) \<Longrightarrow> \<exists>s. cell_at r ''bank_id'' = Str s"
proof -
  define A where "A = round_amount cfg e (validate_amount_range cfg (convert_amount e df))"
  define B where "B = validate_dates e A"
  define C1 where "C1 = validate_string_field e B ''bank_id''"
  define C2 where "C2 = validate_string_field e C1 ''customer_id''"
  define C3 where "C3 = validate_string_field e C2 ''transaction_id''"
  from run have am: "''amount'' \<in> set (columns df)"
    by (auto simp: validate_column_types_def split: if_splits)
  with run have typed: "typed = validate_transaction_type C3"
    by (simp add: validate_column_types_def Let_def string_fields_def A_def B_def C1_def C2_def C3_def)
  have colsA: "set (columns A) = set (columns df)"
    using am by (auto simp: A_def columns_round_amount columns_validate_amount_range
        columns_convert_amount)
  have colsB: "set (columns B) = set (columns df)"
    by (simp add: B_def columns_validate_dates colsA)
  have d3: "derived_from {''customer_id'', ''transaction_id'', ''transaction_type''} typed C1"
  proof -
    have "derived_from {''customer_id'', ''transaction_id''} C3 C1"
      unfolding C3_def C2_def
      by (rule derived_from_trans [OF validate_string_field_derived validate_string_field_derived])
         simp
    then show ?thesis
      unfolding typed
      by (rule derived_from_trans [OF _ validate_transaction_type_derived]) auto
  qed
  have d2: "derived_from {''bank_id'', ''customer_id'', ''transaction_id'', ''transaction_type''} typed B"
    unfolding C1_def [symmetric]
    by (rule derived_from_trans [OF _ d3, of "{''bank_id''}"])
       (auto simp: C1_def validate_string_field_derived)
  have d1: "derived_from {''transaction_date'', ''bank_id'', ''customer_id'', ''transaction_id'',
              ''transaction_type''} typed A"
    by (rule derived_from_trans [OF _ d2, of "{''transaction_date''}"])
       (auto simp: B_def validate_dates_derived)
  from derived_fromD [OF d1 r] obtain rA where rA: "rA \<in> set (rows A)" "idx r = idx rA"
    and allA: "\<forall>c. c \<notin> {''transaction_date'', ''bank_id'', ''customer_id'', ''transaction_id'',
              ''transaction_type''} \<longrightarrow> cell_at r c = cell_at rA c"
    by blast
  from allA have amt: "cell_at r ''amount'' = cell_at rA ''amount''" by simp
  from amount_after_round [OF rA(1) [unfolded A_def]] obtain r0 a where
    r0: "r0 \<in> set (rows df)" "idx rA = idx r0" "to_numeric e (cell_at r0 ''amount'') = Some a"
      "0 < a" "a \<le> max_transaction_amount cfg"
      "cell_at rA ''amount'' = Num (np_round e a (currency_precision cfg))"
    by blast
  show "\<exists>r0 \<in> set (rows df). idx r = idx r0
           \<and> (\<exists>a. to_numeric e (cell_at r0 ''amount'') = Some a \<and> 0 < a
                 \<and> a \<le> max_transaction_amount cfg
                 \<and> cell_at r ''amount'' = Num (np_round e a (currency_precision cfg)))"
  proof (intro bexI [of _ r0] conjI exI [of _ a])
    show "idx r = idx r0" using rA(2) r0(2) by simp
    show "cell_at r ''amount'' = Num (np_round e a (currency_precision cfg))"
      using amt r0(6) by simp
  qed (use r0 in simp_all)
  show "cell_at r ''transaction_date'' = Null
         \<or> (\<exists>t. cell_at r ''transaction_date'' = Timestamp t
                \<and> (t \<le> now_159 e \<or> t \<le> now_162 e))"
    if "''transaction_date'' \<in> set (columns df)"
  proof -
    from derived_fromD [OF d2 r] obtain rB where rB: "rB \<in> set (rows B)"
      and allB: "\<forall>c. c \<notin> {''bank_id'', ''customer_id'', ''transaction_id'', ''transaction_type''}
                   \<longrightarrow> cell_at r c = cell_at rB c"
      by blast
    from allB have eq: "cell_at r ''transaction_date'' = cell_at rB ''transaction_date''" by simp
    from that colsA have "''transaction_date'' \<in> set (columns A)" by simp
    from validate_dates_not_future [OF this rB [unfolded B_def]]
    show ?thesis unfolding eq .
  qed
  show "\<exists>s. cell_at r ''bank_id'' = Str s" if "''bank_id'' \<in> set (columns df)"
  proof -
    from derived_fromD [OF d3 r] obtain rC where rC: "rC \<in> set (rows C1)"
      and allC: "\<forall>c. c \<notin> {''customer_id'', ''transaction_id'', ''transaction_type''}
                   \<longrightarrow> cell_at r c = cell_at rC c"
      by blast
    from allC have eq: "cell_at r ''bank_id'' = cell_at rC ''bank_id''" by simp
    from that colsB have "''bank_id'' \<in> set (columns B)" by simp
    from validate_string_field_str [OF this rC [unfolded C1_def]]
    show ?thesis unfolding eq .
  qed
qed

lemma validate_column_types_columns:
  assumes "validate_column_types cfg e df = Inr typed"
  shows "set (columns typed) = set (columns df)"
proof -
  from assms have am: "''amount'' \<in> set (columns df)"
    by (auto simp: validate_column_types_def split: if_splits)
  with assms have "typed = validate_transaction_type
      (validate_string_field e (validate_string_field e (validate_string_field e
         (validate_dates e (round_amount cfg e (validate_amount_range cfg (convert_amount e df))))
         ''bank_id'') ''customer_id'') ''transaction_id'')"
    by (simp add: validate_column_types_def Let_def string_fields_def)
  then show ?thesis
    using am
    by (simp add: columns_validate_transaction_type columns_validate_string_field
        columns_validate_dates columns_round_amount columns_validate_amount_range
        columns_convert_amount insert_absorb)
qed

lemma detect_duplicates_sub:
  assumes "detect_duplicates cfg df = Inr d"
  shows "set (rows d) \<subseteq> set (rows df)" and "columns d = columns df"
proof -
  from assms have "d = df \<or> (\<exists>fs. d = df\<lparr>rows := mask_rows fs (rows df)\<rparr>)"
    by (auto simp: detect_duplicates_def Let_def split: if_splits sum.splits)
  moreover have "x \<in> set (rows df)" if "x \<in> set (mask_rows fs (rows df))" for x fs
    using that mask_rows_subset [of fs "rows df"] by blast
  ultimately show "set (rows d) \<subseteq> set (rows df)" and "columns d = columns df"
    by auto
qed

lemma detect_anomalies_ok:
  assumes "handle_outliers cfg" "snd (detect_anomalies cfg e df) = Inr res"
  shows "''bank_id'' \<in> set (columns df)" "''amount'' \<in> set (columns df)"
    "\<forall>r \<in> set (rows df). is_numeric (cell_at r ''amount'')"
  using assms by (auto simp: detect_anomalies_def Let_def split: if_splits)

lemma detect_anomalies_off:
  "\<not> handle_outliers cfg \<Longrightarrow> detect_anomalies cfg e df = (df, Inr (df, empty_frame))"
  by (simp add: detect_anomalies_def)

section \<open>The anomaly split\<close>

lemma idx_filter_disjoint:
  assumes "distinct (map idx rs)"
  shows "set (map idx (filter P rs)) \<inter> set (map idx (filter (\<lambda>r. \<not> P r) rs)) = {}"
proof -
  from assms have "inj_on idx (set rs)" by (simp add: distinct_map)
  then show ?thesis by (auto simp: inj_on_def)
qed

text \<open>
  C5. For the deduplicated batch of a run (the normalizer's output after duplicate
  detection): with \<open>handle_outliers\<close> off the detector returns the batch itself and an
  empty anomaly set. With it on, the normal set is the records whose z-score is not above
  the threshold (without the temporary column), the anomaly set is the records whose
  z-score is above it (with the z-score and the two tag columns added), so the sizes add
  up to the size of the batch, and with distinct index labels the two sets are disjoint
  and their union is the batch.
\<close>

theorem detect_anomalies_partitions:
  assumes typed: "validate_column_types cfg e df0 = Inr df_typed"
    and deduped: "detect_duplicates cfg df_typed = Inr df"
    and run: "detect_anomalies cfg e df = (df_after, Inr (normal_data, anomalies))"
  shows "(\<not> handle_outliers cfg \<longrightarrow> normal_data = df \<and> anomalies = empty_frame)
       \<and> (handle_outliers cfg \<longrightarrow>
            rows normal_data =
              map (\<lambda>r. r\<lparr>cells := (cells r) |` (- {''amount_zscore''})\<rparr>)
                (filter (\<lambda>r. \<not> num_gt (amount_zscore e df r) (anomaly_threshold_std cfg)) (rows df))
          \<and> map idx (rows anomalies) =
              map idx (filter (\<lambda>r. num_gt (amount_zscore e df r) (anomaly_threshold_std cfg)) (rows df))
          \<and> (\<forall>a \<in> set (rows anomalies). \<exists>r \<in> set (rows df).
                 num_gt (amount_zscore e df r) (anomaly_threshold_std cfg) \<and> idx a = idx r
                 \<and> (\<forall>c. c \<notin> {''amount_zscore'', ''anomaly_type'', ''detected_at''}
                        \<longrightarrow> cells a c = cells r c))
          \<and> length (rows normal_data) + length (rows anomalies) = length (rows df)
          \<and> (distinct (map idx (rows df)) \<longrightarrow>
                set (map idx (rows normal_data)) \<inter> set (map idx (rows anomalies)) = {}
              \<and> set (map idx (rows normal_data)) \<union> set (map idx (rows anomalies))
                  = set (map idx (rows df))))"
proof (intro conjI impI)
  assume "\<not> handle_outliers cfg"
  with run show "normal_data = df" "anomalies = empty_frame"
    by (auto simp: detect_anomalies_off)
next
  assume h: "handle_outliers cfg"
  let ?thr = "anomaly_threshold_std cfg"
  let ?P = "\<lambda>r. num_gt (amount_zscore e df r) ?thr"
  from run have res: "snd (detect_anomalies cfg e df) = Inr (normal_data, anomalies)" by simp
  note ok = detect_anomalies_ok [OF h res]
  from detect_duplicates_sub [OF deduped] have sub: "set (rows df) \<subseteq> set (rows df_typed)"
    and cols: "columns df = columns df_typed" by simp_all
  from ok(1) cols validate_column_types_columns [OF typed]
  have bank: "''bank_id'' \<in> set (columns df0)" by simp
  have z: "\<exists>z. amount_zscore e df r = Num z" if "r \<in> set (rows df)" for r
  proof -
    from that sub have r: "r \<in> set (rows df_typed)" by blast
    from validate_column_types_rows(1) [OF typed r]
    obtain a where "cell_at r ''amount'' = Num a" by blast
    moreover from validate_column_types_rows(3) [OF typed r bank]
    have "cell_at r ''bank_id'' \<noteq> Null" by auto
    ultimately show ?thesis by (rule amount_zscore_numeric [rotated])
  qed
  have filt: "filter (\<lambda>r. num_le (amount_zscore e df r) ?thr) (rows df)
              = filter (\<lambda>r. \<not> ?P r) (rows df)"
  proof (rule filter_cong [OF refl])
    fix r assume "r \<in> set (rows df)"
    from z [OF this] obtain zv where "amount_zscore e df r = Num zv" by blast
    then show "num_le (amount_zscore e df r) ?thr \<longleftrightarrow> \<not> ?P r"
      by (simp add: num_le_def num_gt_def not_less)
  qed
  from detect_anomalies_on(2) [OF h ok, of e] res
  have n: "rows normal_data =
              map (\<lambda>r. r\<lparr>cells := (cells r) |` (- {''amount_zscore''})\<rparr>)
                (filter (\<lambda>r. num_le (amount_zscore e df r) ?thr) (rows df))"
    and a: "map idx (rows anomalies) = map idx (filter ?P (rows df))"
    and f: "\<forall>a \<in> set (rows anomalies). \<exists>r \<in> set (rows df).
                 ?P r \<and> idx a = idx r
                 \<and> (\<forall>c. c \<notin> {''amount_zscore'', ''anomaly_type'', ''detected_at''}
                        \<longrightarrow> cells a c = cells r c)"
    by auto
  from n filt show n': "rows normal_data =
              map (\<lambda>r. r\<lparr>cells := (cells r) |` (- {''amount_zscore''})\<rparr>)
                (filter (\<lambda>r. \<not> ?P r) (rows df))"
    by simp
  from a show "map idx (rows anomalies) = map idx (filter ?P (rows df))" .
  from f show "\<forall>a \<in> set (rows anomalies). \<exists>r \<in> set (rows df).
                 ?P r \<and> idx a = idx r
                 \<and> (\<forall>c. c \<notin> {''amount_zscore'', ''anomaly_type'', ''detected_at''}
                        \<longrightarrow> cells a c = cells r c)" .
  have la: "length (rows anomalies) = length (filter ?P (rows df))"
    using arg_cong [OF a, of length] by simp
  have ln: "length (rows normal_data) = length (filter (\<lambda>r. \<not> ?P r) (rows df))"
    by (simp add: n')
  from la ln show "length (rows normal_data) + length (rows anomalies) = length (rows df)"
    using sum_length_filter_compl [of ?P "rows df"] by simp
  have ni: "map idx (rows normal_data) = map idx (filter (\<lambda>r. \<not> ?P r) (rows df))"
    by (simp add: n' comp_def)
  show "set (map idx (rows normal_data)) \<inter> set (map idx (rows anomalies)) = {}"
    if "distinct (map idx (rows df))"
    unfolding ni a using idx_filter_disjoint [OF that, of ?P] by blast
  show "set (map idx (rows normal_data)) \<union> set (map idx (rows anomalies))
                  = set (map idx (rows df))"
    unfolding ni a by auto
qed

section \<open>Records that reach aggregation\<close>

lemma cell_at_restrict:
  "c \<noteq> k \<Longrightarrow> cell_at (r\<lparr>cells := (cells r) |` (- {k})\<rparr>) c = cell_at r c"
  by (simp add: cell_at_def restrict_map_def)

lemma detect_anomalies_normal_rows:
  assumes "snd (detect_anomalies cfg e df) = Inr (normal_data, anomalies)"
    and "r \<in> set (rows normal_data)"
  shows "\<exists>r' \<in> set (rows df). idx r = idx r'
           \<and> (\<forall>c. c \<noteq> ''amount_zscore'' \<longrightarrow> cell_at r c = cell_at r' c)"
proof (cases "handle_outliers cfg")
  case False
  with assms show ?thesis by (auto simp: detect_anomalies_off)
next
  case True
  note ok = detect_anomalies_ok [OF True assms(1)]
  from detect_anomalies_on(2) [OF True ok, of e] assms(1)
  have "rows normal_data =
              map (\<lambda>r. r\<lparr>cells := (cells r) |` (- {''amount_zscore''})\<rparr>)
                (filter (\<lambda>r. num_le (amount_zscore e df r) (anomaly_threshold_std cfg)) (rows df))"
    by auto
  with assms(2) obtain r' where "r' \<in> set (rows df)"
    "r = r'\<lparr>cells := (cells r') |` (- {''amount_zscore''})\<rparr>"
    by auto
  then show ?thesis by (intro bexI [of _ r']) (auto simp: cell_at_restrict)
qed

lemma cleaning_stages_final_rows:
  assumes run: "cleaning_stages cfg e df = Inr (df_final, anomalies)"
    and r: "r \<in> set (rows df_final)"
  shows "\<exists>df_clean df_typed. clean_null_values df = Inr df_clean
           \<and> validate_column_types cfg e df_clean = Inr df_typed
           \<and> (\<exists>r' \<in> set (rows df_typed). idx r = idx r'
                 \<and> (\<forall>c. c \<noteq> ''amount_zscore'' \<longrightarrow> cell_at r c = cell_at r' c))"
proof -
  from run obtain df_clean where c: "clean_null_values df = Inr df_clean"
    by (cases "clean_null_values df")
       (auto simp: cleaning_stages_def split: prod.splits if_splits)
  from run c obtain df_typed where t: "validate_column_types cfg e df_clean = Inr df_typed"
    by (cases "validate_column_types cfg e df_clean")
       (auto simp: cleaning_stages_def split: prod.splits if_splits)
  from run c t obtain df_deduped where d: "detect_duplicates cfg df_typed = Inr df_deduped"
    by (cases "detect_duplicates cfg df_typed")
       (auto simp: cleaning_stages_def split: prod.splits if_splits)
  from run c t d have a: "snd (detect_anomalies cfg e df_deduped) = Inr (df_final, anomalies)"
    by (auto simp: cleaning_stages_def split: prod.splits if_splits)
  from detect_anomalies_normal_rows [OF a r] obtain r' where
    r': "r' \<in> set (rows df_deduped)" "idx r = idx r'"
      "\<forall>c. c \<noteq> ''amount_zscore'' \<longrightarrow> cell_at r c = cell_at r' c"
    by blast
  from r'(1) detect_duplicates_sub(1) [OF d] have "r' \<in> set (rows df_typed)" by blast
  with c t r'(2,3) show ?thesis by blast
qed

text \<open>
  C2 (amended). For every batch the run accepts, every record of the final normal set
  comes from an input record whose amount converts to a number \<open>a\<close> with
  \<open>0 < a \<le> max_transaction_amount\<close>, and carries what \<open>Series.round\<close> makes of \<open>a\<close> at
  \<open>currency_precision\<close> decimals; its \<open>transaction_date\<close>, when the batch has that column, is either missing
  (it did not parse) or a time not after the processing time. With distinct index labels,
  a record with amount \<open>-5\<close> is not in the final normal set, so it never reaches the
  aggregates.
\<close>

theorem surviving_records_in_range:
  assumes run: "cleaning_stages cfg e df = Inr (df_final, anomalies)"
  shows "(\<forall>r \<in> set (rows df_final).
            (\<exists>r0 \<in> set (rows df). idx r0 = idx r
               \<and> (\<exists>a. to_numeric e (cell_at r0 ''amount'') = Some a \<and> 0 < a
                     \<and> a \<le> max_transaction_amount cfg
                     \<and> cell_at r ''amount'' = Num (np_round e a (currency_precision cfg))))
          \<and> (''transaction_date'' \<in> set (columns df) \<longrightarrow>
               cell_at r ''transaction_date'' = Null
               \<or> (\<exists>t. cell_at r ''transaction_date'' = Timestamp t
                      \<and> t \<le> max (now_159 e) (now_162 e))))
       \<and> (distinct (map idx (rows df)) \<longrightarrow>
            (\<forall>r0 \<in> set (rows df). to_numeric e (cell_at r0 ''amount'') = Some (- 5)
                \<longrightarrow> idx r0 \<notin> set (map idx (rows df_final))))"
proof -
  have main: "(\<exists>r0 \<in> set (rows df). idx r0 = idx r
               \<and> (\<exists>a. to_numeric e (cell_at r0 ''amount'') = Some a \<and> 0 < a
                     \<and> a \<le> max_transaction_amount cfg
                     \<and> cell_at r ''amount'' = Num (np_round e a (currency_precision cfg))))
          \<and> (''transaction_date'' \<in> set (columns df) \<longrightarrow>
               cell_at r ''transaction_date'' = Null
               \<or> (\<exists>t. cell_at r ''transaction_date'' = Timestamp t
                      \<and> t \<le> max (now_159 e) (now_162 e)))"
    if r: "r \<in> set (rows df_final)" for r
  proof -
    from cleaning_stages_final_rows [OF run r] obtain df_clean df_typed r' where
      c: "clean_null_values df = Inr df_clean"
      and t: "validate_column_types cfg e df_clean = Inr df_typed"
      and r': "r' \<in> set (rows df_typed)" "idx r = idx r'"
      and same: "\<forall>c. c \<noteq> ''amount_zscore'' \<longrightarrow> cell_at r c = cell_at r' c"
      by blast
    from same have amt: "cell_at r ''amount'' = cell_at r' ''amount''"
      and dat: "cell_at r ''transaction_date'' = cell_at r' ''transaction_date''"
      by simp_all
    from validate_column_types_rows(1) [OF t r'(1)] obtain rc a where
      rc: "rc \<in> set (rows df_clean)" "idx r' = idx rc"
        "to_numeric e (cell_at rc ''amount'') = Some a" "0 < a" "a \<le> max_transaction_amount cfg"
        "cell_at r' ''amount'' = Num (np_round e a (currency_precision cfg))"
      by blast
    from derived_fromD [OF clean_null_values_derived(1) [OF c] rc(1)] obtain r0 where
      r0: "r0 \<in> set (rows df)" "idx rc = idx r0"
      and all0: "\<forall>c. c \<notin> {''transaction_type'', ''description''} \<longrightarrow> cell_at rc c = cell_at r0 c"
      by blast
    from all0 have "cell_at rc ''amount'' = cell_at r0 ''amount''" by simp
    with rc(3) have num: "to_numeric e (cell_at r0 ''amount'') = Some a" by simp
    have first: "\<exists>r0 \<in> set (rows df). idx r0 = idx r
               \<and> (\<exists>a. to_numeric e (cell_at r0 ''amount'') = Some a \<and> 0 < a
                     \<and> a \<le> max_transaction_amount cfg
                     \<and> cell_at r ''amount'' = Num (np_round e a (currency_precision cfg)))"
    proof (intro bexI [of _ r0] conjI exI [of _ a])
      show "idx r0 = idx r" using r'(2) rc(2) r0(2) by simp
      show "cell_at r ''amount'' = Num (np_round e a (currency_precision cfg))"
        using amt rc(6) by simp
    qed (use num rc r0 in simp_all)
    have second: "cell_at r ''transaction_date'' = Null
               \<or> (\<exists>t. cell_at r ''transaction_date'' = Timestamp t
                      \<and> t \<le> max (now_159 e) (now_162 e))"
      if "''transaction_date'' \<in> set (columns df)"
    proof -
      from that clean_null_values_derived(2) [OF c]
      have "''transaction_date'' \<in> set (columns df_clean)" by simp
      from validate_column_types_rows(2) [OF t r'(1) this]
      show ?thesis unfolding dat by (auto simp: le_max_iff_disj)
    qed
    from first second show ?thesis by blast
  qed
  have minus: "idx r0 \<notin> set (map idx (rows df_final))"
    if d: "distinct (map idx (rows df))" and r0: "r0 \<in> set (rows df)"
      and m: "to_numeric e (cell_at r0 ''amount'') = Some (- 5)" for r0
  proof
    assume "idx r0 \<in> set (map idx (rows df_final))"
    then obtain r where r: "r \<in> set (rows df_final)" "idx r = idx r0" by auto
    from main [OF r(1)] obtain r1 a where r1: "r1 \<in> set (rows df)" "idx r1 = idx r"
      "to_numeric e (cell_at r1 ''amount'') = Some a" "0 < a"
      by blast
    from d have "inj_on idx (set (rows df))" by (simp add: distinct_map)
    with r0 r1(1,2) r(2) have "r1 = r0" by (auto simp: inj_on_def)
    with r1(3,4) m show False by simp
  qed
  from main minus show ?thesis by blast
qed

section \<open>The stages on sample batches\<close>

lemmas stage_defs =
  cleaning_stages_def validate_schema_def clean_null_values_def critical_fields_def
  validate_column_types_def convert_amount_def validate_amount_range_def round_amount_def
  validate_dates_def string_fields_def validate_string_field_def validate_transaction_type_def
  detect_duplicates_def duplicated_def duplicate_columns_def identity_key_def
  detect_anomalies_def amount_zscore_def group_amounts_def std_def mean_def is_numeric_def
  set_column_def select_rows_def drop_column_def dropna_def count_rows_def cell_at_def
  to_numeric_def num_cell_def to_datetime_def time_cell_def num_gt_def num_le_def time_gt_def
  time_le_def astype_str_def strip_def is_space_def df_empty_def fillna_column_def
  decimal_round_def round_half_even_def exact_mean_def exact_std_def Let_def

lemma small_amount_run:
  "\<not> isl (cleaning_stages get_default_config sample_env
        (sample_batch [transaction 0 ''B1'' ''C1'' (Num (1 / 256)) (Timestamp 0)]))
   \<and> map (\<lambda>r. cell_at r ''amount'')
        (rows (fst (projr (cleaning_stages get_default_config sample_env
           (sample_batch [transaction 0 ''B1'' ''C1'' (Num (1 / 256)) (Timestamp 0)])))))
       = [Num 0]"
  by (simp add: stage_defs get_default_config_def sample_env_def sample_batch_def transaction_def)

lemma bad_date_run:
  "\<not> isl (cleaning_stages get_default_config sample_env
        (sample_batch [transaction 0 ''B1'' ''C1'' (Num 5) (Str ''soon'')]))
   \<and> map (\<lambda>r. cell_at r ''transaction_date'')
        (rows (fst (projr (cleaning_stages get_default_config sample_env
           (sample_batch [transaction 0 ''B1'' ''C1'' (Num 5) (Str ''soon'')])))))
       = [Null]"
  by (simp add: stage_defs get_default_config_def sample_env_def sample_batch_def transaction_def)

lemma three_amounts_zscores:
  "map (amount_zscore sample_env three_amounts) (rows three_amounts) = [Num 1, Num 0, Num 1]"
  by (simp add: three_amounts_def amount_zscore_def group_amounts_def std_def mean_def
      exact_mean_def exact_std_def sample_env_def sample_batch_def transaction_def cell_at_def
      Let_def power2_eq_square)

lemma three_amounts_typed:
  "validate_column_types half_sigma_config sample_env three_amounts = Inr three_amounts"
  apply (simp add: stage_defs half_sigma_config_def three_amounts_def get_default_config_def
      sample_env_def sample_batch_def transaction_def)
  apply (intro conjI ext)
    apply simp_all
  done

lemma three_amounts_deduped:
  "detect_duplicates half_sigma_config three_amounts = Inr three_amounts"
  by (simp add: stage_defs half_sigma_config_def three_amounts_def get_default_config_def
      sample_batch_def transaction_def)

lemma detect_anomalies_result:
  assumes "handle_outliers cfg" "''bank_id'' \<in> set (columns df)" "''amount'' \<in> set (columns df)"
    "\<forall>r \<in> set (rows df). is_numeric (cell_at r ''amount'')"
  shows "\<exists>df_after normal_data anomalies.
           detect_anomalies cfg e df = (df_after, Inr (normal_data, anomalies))"
  using detect_anomalies_on(2) [OF assms, of e]
  by (cases "detect_anomalies cfg e df") auto

theorem surviving_records_in_range_witness:
  "\<exists>df_final anomalies.
      cleaning_stages get_default_config sample_env
        (sample_batch [transaction 0 ''B1'' ''C1'' (Num 5) (Timestamp 0),
                       transaction 1 ''B1'' ''C2'' (Num (- 5)) (Timestamp 0)])
        = Inr (df_final, anomalies)
    \<and> 1 \<notin> set (map idx (rows df_final))"
proof -
  let ?df = "sample_batch [transaction 0 ''B1'' ''C1'' (Num 5) (Timestamp 0),
                       transaction 1 ''B1'' ''C2'' (Num (- 5)) (Timestamp 0)]"
  have "\<not> isl (cleaning_stages get_default_config sample_env ?df)"
    by (simp add: stage_defs get_default_config_def sample_env_def sample_batch_def
        transaction_def)
  then obtain df_final anomalies where
    run: "cleaning_stages get_default_config sample_env ?df = Inr (df_final, anomalies)"
    by (cases "cleaning_stages get_default_config sample_env ?df") auto
  have d: "distinct (map idx (rows ?df))"
    by (simp add: sample_batch_def transaction_def)
  have m: "transaction 1 ''B1'' ''C2'' (Num (- 5)) (Timestamp 0) \<in> set (rows ?df)"
    "to_numeric sample_env
       (cell_at (transaction 1 ''B1'' ''C2'' (Num (- 5)) (Timestamp 0)) ''amount'') = Some (- 5)"
    by (simp_all add: sample_batch_def transaction_def cell_at_def to_numeric_def)
  from surviving_records_in_range [OF run] d m
  have "idx (transaction 1 ''B1'' ''C2'' (Num (- 5)) (Timestamp 0))
          \<notin> set (map idx (rows df_final))"
    by blast
  then have "1 \<notin> set (map idx (rows df_final))" by (simp add: transaction_def)
  with run show ?thesis by blast
qed

text \<open>
  C2 as stated fails. An amount of 0.00390625 (1/256) passes the range check and is then
  rounded to two decimals, so the record reaches aggregation with amount 0, which is not
  above 0. A date
  that does not parse becomes a missing value, and missing dates are removed only by the
  filter that runs when some date of the batch is in the future: here the record survives
  with no date.
\<close>

theorem surviving_records_out_of_range:
  "\<not> isl (cleaning_stages get_default_config sample_env
        (sample_batch [transaction 0 ''B1'' ''C1'' (Num (1 / 256)) (Timestamp 0)]))
   \<and> map (\<lambda>r. cell_at r ''amount'')
        (rows (fst (projr (cleaning_stages get_default_config sample_env
           (sample_batch [transaction 0 ''B1'' ''C1'' (Num (1 / 256)) (Timestamp 0)])))))
       = [Num 0]
   \<and> \<not> isl (cleaning_stages get_default_config sample_env
        (sample_batch [transaction 0 ''B1'' ''C1'' (Num 5) (Str ''soon'')]))
   \<and> parse_datetime sample_env ''soon'' = None
   \<and> map (\<lambda>r. cell_at r ''transaction_date'')
        (rows (fst (projr (cleaning_stages get_default_config sample_env
           (sample_batch [transaction 0 ''B1'' ''C1'' (Num 5) (Str ''soon'')])))))
       = [Null]"
  using small_amount_run bad_date_run by (simp add: sample_env_def)

theorem detect_anomalies_partitions_witness:
  "\<exists>df_after normal_data anomalies.
      validate_column_types half_sigma_config sample_env three_amounts = Inr three_amounts
    \<and> detect_duplicates half_sigma_config three_amounts = Inr three_amounts
    \<and> detect_anomalies half_sigma_config sample_env three_amounts
        = (df_after, Inr (normal_data, anomalies))
    \<and> map idx (rows normal_data) = [20]
    \<and> map idx (rows anomalies) = [10, 30]"
proof -
  have h: "handle_outliers half_sigma_config"
    by (simp add: half_sigma_config_def get_default_config_def)
  obtain df_after normal_data anomalies where
    run: "detect_anomalies half_sigma_config sample_env three_amounts
            = (df_after, Inr (normal_data, anomalies))"
    using detect_anomalies_result [of half_sigma_config three_amounts sample_env] h
    by (auto simp: three_amounts_def sample_batch_def transaction_def cell_at_def is_numeric_def)
  note t = detect_anomalies_partitions [OF three_amounts_typed three_amounts_deduped run]
  from three_amounts_zscores have z:
    "amount_zscore sample_env three_amounts (transaction 10 ''B1'' ''C1'' (Num 1) (Timestamp 0)) = Num 1"
    "amount_zscore sample_env three_amounts (transaction 20 ''B1'' ''C2'' (Num 3) (Timestamp 0)) = Num 0"
    "amount_zscore sample_env three_amounts (transaction 30 ''B1'' ''C3'' (Num 5) (Timestamp 0)) = Num 1"
    by (simp_all add: three_amounts_def sample_batch_def)
  have rows: "rows three_amounts = [transaction 10 ''B1'' ''C1'' (Num 1) (Timestamp 0),
                   transaction 20 ''B1'' ''C2'' (Num 3) (Timestamp 0),
                   transaction 30 ''B1'' ''C3'' (Num 5) (Timestamp 0)]"
    by (simp add: three_amounts_def sample_batch_def)
  from t h have "rows normal_data =
              map (\<lambda>r. r\<lparr>cells := (cells r) |` (- {''amount_zscore''})\<rparr>)
                (filter (\<lambda>r. \<not> num_gt (amount_zscore sample_env three_amounts r)
                                  (anomaly_threshold_std half_sigma_config)) (rows three_amounts))"
    and "map idx (rows anomalies) =
              map idx (filter (\<lambda>r. num_gt (amount_zscore sample_env three_amounts r)
                                  (anomaly_threshold_std half_sigma_config)) (rows three_amounts))"
    by blast+
  then have res: "map idx (rows normal_data) = [20]" "map idx (rows anomalies) = [10, 30]"
    by (simp_all add: rows z num_gt_def half_sigma_config_def get_default_config_def)
       (simp_all add: transaction_def)
  show ?thesis
    by (rule exI [of _ df_after], rule exI [of _ normal_data], rule exI [of _ anomalies])
       (simp add: run three_amounts_typed three_amounts_deduped res)
qed




text \<open>
  C9. The stages do not all leave their input unchanged. After \<open>detect_anomalies\<close> the
  batch it received has the additional column \<open>amount_zscore\<close>, and after
  \<open>aggregate_daily_transactions\<close> the \<open>transaction_date\<close> cells of the batch it received
  are calendar dates instead of timestamps.
\<close>

theorem stages_change_their_input:
  "columns (fst (detect_anomalies get_default_config sample_env
        (sample_batch [transaction 0 ''B1'' ''C1'' (Num 5) (Timestamp 90000)])))
     = columns (sample_batch [transaction 0 ''B1'' ''C1'' (Num 5) (Timestamp 90000)])
         @ [''amount_zscore'']
   \<and> map (\<lambda>r. cell_at r ''amount_zscore'')
        (rows (fst (detect_anomalies get_default_config sample_env
           (sample_batch [transaction 0 ''B1'' ''C1'' (Num 5) (Timestamp 90000)])))) = [Num 0]
   \<and> map (\<lambda>r. cell_at r ''amount_zscore'')
        (rows (sample_batch [transaction 0 ''B1'' ''C1'' (Num 5) (Timestamp 90000)])) = [Null]
   \<and> map (\<lambda>r. cell_at r ''transaction_date'')
        (rows (fst (aggregate_daily_transactions (new_processor get_default_config) sample_env
           (sample_batch [transaction 0 ''B1'' ''C1'' (Num 5) (Timestamp 90000)])))) = [Day 1]
   \<and> map (\<lambda>r. cell_at r ''transaction_date'')
        (rows (sample_batch [transaction 0 ''B1'' ''C1'' (Num 5) (Timestamp 90000)]))
       = [Timestamp 90000]"
  by (simp add: stage_defs aggregate_daily_transactions_def to_date_def new_processor_def
      get_default_config_def sample_env_def sample_batch_def transaction_def)

end
